theory Spec2Isabelle
  imports Main "HOL-Library.Multiset" "HOL-Library.Sublist"
begin

section \<open>The syntax tree read by the analyzer\<close>

text \<open>
  \<^verbatim>\<open>ast_analyzer.py\<close> reads the tree produced by Python's \<^verbatim>\<open>ast.parse\<close>. The tree itself
  belongs to the parser; the model keeps the node classes the analyzer tests with
  \<^verbatim>\<open>isinstance\<close> and the fields it reads, under their \<^verbatim>\<open>ast\<close> names, and one
  constructor \<open>Other\<close> for every other node class (with its child nodes and, where the
  class has one, its line).  \<^verbatim>\<open>FunctionDef\<close> and \<^verbatim>\<open>AsyncFunctionDef\<close> share the
  constructor \<open>FunctionDef\<close>; the flag \<open>is_async_def\<close> tells them apart.
  \<open>end_lineno = None\<close> is a node without the attribute (\<^verbatim>\<open>hasattr\<close> is false).
  Leaf nodes that no rule inspects while walking (expression contexts, import aliases) are
  not listed among the children: removing leaves does not change the relative order in
  which a breadth-first walk yields the remaining nodes.
\<close>

datatype 'n arg = Arg (arg: string) (annotation: "'n option")

datatype 'n arguments = Arguments
  (posonlyargs: "'n arg list")
  (args: "'n arg list")
  (vararg: "'n arg option")
  (kwonlyargs: "'n arg list")
  (kw_defaults: "'n option list")
  (kwarg: "'n arg option")
  (defaults: "'n list")

datatype 'n funcdef = FuncDef
  (is_async_def: bool)
  (name: string)
  (func_args: "'n arguments")
  (body: "'n list")
  (decorator_list: "'n list")
  (returns: "'n option")
  (lineno: int)
  (end_lineno: "int option")

datatype 'n classdef = ClassDefn
  (cls_name: string)
  (bases: "'n list")
  (cls_keywords: "'n list")
  (cls_body: "'n list")
  (cls_decorator_list: "'n list")
  (cls_lineno: int)

datatype 'n excepthandler = ExceptHandler
  (handler_type: "'n option")
  (handler_name: "string option")
  (handler_body: "'n list")
  (handler_lineno: int)

datatype import_alias = Alias (alias_name: string) (asname: "string option")

datatype node =
    Module "node list"
  | FunctionDef "node funcdef"
  | ClassDef "node classdef"
  | If node "node list" "node list" int
  | Match node "node list" int
  | MatchCase node "node option" "node list"
  | Raise "node option" "node option" int
  | Try "node list" "node excepthandler list" "node list" "node list" int
  | Call node "node list" "node list" int
  | Import "import_alias list" int
  | ImportFrom "string option" "import_alias list" int
  | Assign "node list" node int
  | Name string int
  | Attribute node string int
  | Other "int option" "node list"
  | ArgumentsNode "node arguments"
  | ArgNode "node arg"
  | HandlerNode "node excepthandler"


subsection \<open>Breadth-first traversal (\<^verbatim>\<open>ast.walk\<close>)\<close>

text \<open>
  \<^verbatim>\<open>ast.iter_child_nodes\<close> yields the child nodes of a node in the order of its fields;
  \<^verbatim>\<open>ast.walk\<close> keeps a queue, pops a node on the left, appends its children on the right
  and yields the node.
\<close>

fun opt_list :: "'a option \<Rightarrow> 'a list" where
  "opt_list None = []"
| "opt_list (Some x) = [x]"

fun iter_child_nodes :: "node \<Rightarrow> node list" where
  "iter_child_nodes (Module b) = b"
| "iter_child_nodes (FunctionDef fd) =
     ArgumentsNode (func_args fd) # body fd @ decorator_list fd @ opt_list (returns fd)"
| "iter_child_nodes (ClassDef cd) =
     bases cd @ cls_keywords cd @ cls_body cd @ cls_decorator_list cd"
| "iter_child_nodes (If t b e l) = t # b @ e"
| "iter_child_nodes (Match s cs l) = s # cs"
| "iter_child_nodes (MatchCase p g b) = p # opt_list g @ b"
| "iter_child_nodes (Raise e c l) = opt_list e @ opt_list c"
| "iter_child_nodes (Try b hs e f l) = b @ map HandlerNode hs @ e @ f"
| "iter_child_nodes (Call f as ks l) = f # as @ ks"
| "iter_child_nodes (Import ns l) = []"
| "iter_child_nodes (ImportFrom m ns l) = []"
| "iter_child_nodes (Assign ts v l) = ts @ [v]"
| "iter_child_nodes (Name x l) = []"
| "iter_child_nodes (Attribute v a l) = [v]"
| "iter_child_nodes (Other l cs) = cs"
| "iter_child_nodes (ArgumentsNode a) =
     map ArgNode (posonlyargs a) @ map ArgNode (args a) @ map ArgNode (opt_list (vararg a))
     @ map ArgNode (kwonlyargs a) @ concat (map opt_list (kw_defaults a))
     @ map ArgNode (opt_list (kwarg a)) @ defaults a"
| "iter_child_nodes (ArgNode a) = opt_list (annotation a)"
| "iter_child_nodes (HandlerNode h) = opt_list (handler_type h) @ handler_body h"

text \<open>The queue shrinks in total weight at every step, so the walk returns.\<close>

definition weight :: "node \<Rightarrow> nat" where
  "weight n = (case n of
      ArgumentsNode a \<Rightarrow> size n
    | ArgNode a \<Rightarrow> size n
    | HandlerNode h \<Rightarrow> size n
    | _ \<Rightarrow> Suc (size n))"

lemma weight_le: "weight n \<le> Suc (size n)"
  by (simp add: weight_def split: node.split)

lemma sum_weight_le: "sum_list (map weight xs) \<le> size_list size xs"
proof (induction xs)
  case Nil show ?case by simp
next
  case (Cons x xs) then show ?case using weight_le[of x] by simp
qed

lemma opt_weight_le: "sum_list (map weight (opt_list x)) \<le> size_option size x"
proof (cases x)
  case None then show ?thesis by simp
next
  case (Some c) then show ?thesis using weight_le[of c] by simp
qed

lemma kw_defaults_weight_le:
  "sum_list (map weight (concat (map opt_list xs))) \<le> size_list (size_option size) xs"
proof (induction xs)
  case Nil show ?case by simp
next
  case (Cons x xs) then show ?case using opt_weight_le[of x] by simp
qed

lemma weight_nonwrapper:
  "weight (Module b) = Suc (size (Module b))"
  "weight (FunctionDef fd) = Suc (size (FunctionDef fd))"
  "weight (ClassDef cd) = Suc (size (ClassDef cd))"
  "weight (If t b e l) = Suc (size (If t b e l))"
  "weight (Match t cs l) = Suc (size (Match t cs l))"
  "weight (MatchCase p g b) = Suc (size (MatchCase p g b))"
  "weight (Raise x c l) = Suc (size (Raise x c l))"
  "weight (Try b hs e f l) = Suc (size (Try b hs e f l))"
  "weight (Call fn as ks l) = Suc (size (Call fn as ks l))"
  "weight (Assign ts v l) = Suc (size (Assign ts v l))"
  "weight (Attribute v a l) = Suc (size (Attribute v a l))"
  "weight (Other ol cs) = Suc (size (Other ol cs))"
  by (simp_all add: weight_def)

lemma weight_wrapper:
  "weight (ArgumentsNode a) = size (ArgumentsNode a)"
  "weight (ArgNode x) = size (ArgNode x)"
  "weight (HandlerNode h) = size (HandlerNode h)"
  by (simp_all add: weight_def)

lemma weight_pos: "0 < weight n"
  by (cases n) (simp_all add: weight_def)

lemma argnodes_weight_le:
  "sum_list (map weight (map ArgNode xs)) \<le> size_list (size_arg size) xs"
  by (induction xs) (auto simp: weight_wrapper)

lemma argopt_weight_le:
  "sum_list (map weight (map ArgNode (opt_list x))) \<le> size_option (size_arg size) x"
  by (cases x) (auto simp: weight_wrapper)

lemma handlers_weight_le:
  "sum_list (map weight (map HandlerNode hs)) \<le> size_list (size_excepthandler size) hs"
  by (induction hs) (auto simp: weight_wrapper)

lemma children_weight: "sum_list (map weight (iter_child_nodes n)) < weight n"
proof (cases n)
  case (FunctionDef fd)
  then show ?thesis
    using sum_weight_le[of "body fd"] sum_weight_le[of "decorator_list fd"]
      opt_weight_le[of "returns fd"]
    by (cases fd) (simp add: weight_nonwrapper weight_wrapper)
next
  case (ClassDef cd)
  then show ?thesis
    using sum_weight_le[of "bases cd"] sum_weight_le[of "cls_keywords cd"]
      sum_weight_le[of "cls_body cd"] sum_weight_le[of "cls_decorator_list cd"]
    by (cases cd) (simp add: weight_nonwrapper)
next
  case (ArgumentsNode a)
  then show ?thesis
    using argnodes_weight_le[of "posonlyargs a"] argnodes_weight_le[of "args a"]
      argnodes_weight_le[of "kwonlyargs a"] argopt_weight_le[of "vararg a"]
      argopt_weight_le[of "kwarg a"] kw_defaults_weight_le[of "kw_defaults a"]
      sum_weight_le[of "defaults a"]
    by (cases a) (simp add: weight_wrapper)
next
  case (ArgNode a)
  then show ?thesis using opt_weight_le[of "annotation a"] by (cases a) (simp add: weight_wrapper)
next
  case (HandlerNode h)
  then show ?thesis
    using opt_weight_le[of "handler_type h"] sum_weight_le[of "handler_body h"]
    by (cases h) (simp add: weight_wrapper)
next
  case (Try b hs e f l)
  then show ?thesis
    using sum_weight_le[of b] sum_weight_le[of e] sum_weight_le[of f] handlers_weight_le[of hs]
    by (simp add: weight_nonwrapper)
next
  case (Module b) then show ?thesis using sum_weight_le[of b] by (simp add: weight_nonwrapper)
next
  case (If t b e l)
  then show ?thesis
    using sum_weight_le[of b] sum_weight_le[of e] weight_le[of t] by (simp add: weight_nonwrapper)
next
  case (Match t cs l)
  then show ?thesis using sum_weight_le[of cs] weight_le[of t] by (simp add: weight_nonwrapper)
next
  case (MatchCase p g b)
  then show ?thesis
    using sum_weight_le[of b] opt_weight_le[of g] weight_le[of p] by (simp add: weight_nonwrapper)
next
  case (Raise e c l)
  then show ?thesis
    using opt_weight_le[of e] opt_weight_le[of c] by (simp add: weight_nonwrapper)
next
  case (Call f as ks l)
  then show ?thesis
    using sum_weight_le[of as] sum_weight_le[of ks] weight_le[of f]
    by (simp add: weight_nonwrapper)
next
  case (Assign ts v l)
  then show ?thesis using sum_weight_le[of ts] weight_le[of v] by (simp add: weight_nonwrapper)
next
  case (Attribute v a l)
  then show ?thesis using weight_le[of v] by (simp add: weight_nonwrapper)
next
  case (Other l cs) then show ?thesis using sum_weight_le[of cs] by (simp add: weight_nonwrapper)
qed (simp_all add: weight_pos)

function walk_queue :: "node list \<Rightarrow> node list" where
  "walk_queue [] = []"
| "walk_queue (n # todo) = n # walk_queue (todo @ iter_child_nodes n)"
  by pat_completeness auto
termination
  by (relation "measure (\<lambda>q. sum_list (map weight q))") (use children_weight in auto)

definition walk :: "node \<Rightarrow> node list" where
  "walk n = walk_queue [n]"

text \<open>
  \<^verbatim>\<open>ast.unparse\<close> (the source text of an expression) is a function of the Python
  library; the extractors take it as the parameter \<open>unparse\<close>.
\<close>

section \<open>Node locator\<close>

text \<open>
  \<^verbatim>\<open>locate_function_node\<close>: the candidates are the function definitions of the walk
  with the queried name, in walk order.  With a line number the loop returns at the first
  candidate that starts at the line or, when it has an end line, spans it; when the loop
  ends without returning (or no line was given) the first candidate is returned.
\<close>

definition candidates :: "node \<Rightarrow> string \<Rightarrow> node funcdef list" where
  "candidates tree fname =
     concat (map (\<lambda>n. case n of
                         FunctionDef fd \<Rightarrow> (if name fd = fname then [fd] else [])
                       | _ \<Rightarrow> [])
                 (walk tree))"

fun scan_candidates :: "int \<Rightarrow> node funcdef list \<Rightarrow> node funcdef option" where
  "scan_candidates line_number [] = None"
| "scan_candidates line_number (candidate # rest) =
     (if lineno candidate = line_number then Some candidate
      else if (case end_lineno candidate of
                 Some e \<Rightarrow> lineno candidate \<le> line_number \<and> line_number \<le> e
               | None \<Rightarrow> False)
           then Some candidate
      else scan_candidates line_number rest)"

definition locate_function_node ::
    "node \<Rightarrow> string \<Rightarrow> int option \<Rightarrow> node funcdef option" where
  "locate_function_node tree fname line_number =
     (let cands = candidates tree fname in
      if cands = [] then None
      else case line_number of
             None \<Rightarrow> Some (hd cands)
           | Some ln \<Rightarrow> (case scan_candidates ln cands of
                          Some c \<Rightarrow> Some c
                        | None \<Rightarrow> Some (hd cands)))"

section \<open>Signature extractor\<close>

record parameter =
  param_name :: string
  param_type :: "string option"
  default_value :: "string option"
  kind :: string

record function_signature =
  sig_name :: string
  parameters :: "parameter list"
  return_type :: "string option"
  is_async :: bool
  is_method :: bool
  decorators :: "string list"

definition get_annotation :: "(node \<Rightarrow> string) \<Rightarrow> node option \<Rightarrow> string option" where
  "get_annotation unparse ann = (case ann of None \<Rightarrow> None | Some e \<Rightarrow> Some (unparse e))"

text \<open>
  The body of the loop over \<^verbatim>\<open>enumerate(args.args)\<close>.  The lengths are Python integers, so
  \<open>default_offset\<close> may be negative (\<^verbatim>\<open>args.defaults\<close> also holds the defaults of the
  positional-only parameters).
\<close>

definition regular_parameter ::
    "(node \<Rightarrow> string) \<Rightarrow> node arguments \<Rightarrow> nat \<Rightarrow> node arg \<Rightarrow> parameter" where
  "regular_parameter unparse a i x =
     (let default_offset = int (length (args a)) - int (length (defaults a)) in
      \<lparr> param_name = arg x,
        param_type = get_annotation unparse (annotation x),
        default_value =
          (if int i \<ge> default_offset
           then Some (unparse (defaults a ! nat (int i - default_offset)))
           else None),
        kind =
          (if int i \<ge> int (length (args a)) - int (length (kw_defaults a))
           then ''keyword'' else ''positional'') \<rparr>)"

definition regular_parameters :: "(node \<Rightarrow> string) \<Rightarrow> node arguments \<Rightarrow> parameter list" where
  "regular_parameters unparse a =
     map (\<lambda>(i, x). regular_parameter unparse a i x) (enumerate 0 (args a))"

definition var_parameter :: "(node \<Rightarrow> string) \<Rightarrow> string \<Rightarrow> node arg \<Rightarrow> parameter" where
  "var_parameter unparse k x =
     \<lparr> param_name = arg x,
       param_type = get_annotation unparse (annotation x),
       default_value = None,
       kind = k \<rparr>"

definition variadic_parameters :: "(node \<Rightarrow> string) \<Rightarrow> node arguments \<Rightarrow> parameter list" where
  "variadic_parameters unparse a =
     (case vararg a of None \<Rightarrow> [] | Some v \<Rightarrow> [var_parameter unparse ''var_positional'' v])
     @ (case kwarg a of None \<Rightarrow> [] | Some k \<Rightarrow> [var_parameter unparse ''var_keyword'' k])"

text \<open>The list \<^verbatim>\<open>parameters\<close> as it stands before the method check.\<close>

definition collected_parameters :: "(node \<Rightarrow> string) \<Rightarrow> node arguments \<Rightarrow> parameter list" where
  "collected_parameters unparse a = regular_parameters unparse a @ variadic_parameters unparse a"

definition extract_function_signature ::
    "(node \<Rightarrow> string) \<Rightarrow> node funcdef \<Rightarrow> function_signature" where
  "extract_function_signature unparse func_node =
     (let ps = collected_parameters unparse (func_args func_node);
          m = (ps \<noteq> [] \<and> param_name (hd ps) \<in> set [''self'', ''cls''])
      in \<lparr> sig_name = name func_node,
           parameters = (if m then tl ps else ps),
           return_type = get_annotation unparse (returns func_node),
           is_async = is_async_def func_node,
           is_method = m,
           decorators = map unparse (decorator_list func_node) \<rparr>)"

section \<open>Body analyzer\<close>

record branch_info =
  branch_type :: string
  condition :: string
  branch_line :: int

record exception_info =
  exc_type :: string
  exception_class :: "string option"
  exc_line :: int
  exc_context :: string

record call_info =
  function_name :: string
  call_module :: "string option"
  call_line :: int
  is_builtin :: bool

record function_body_analysis =
  branches :: "branch_info list"
  exceptions :: "exception_info list"
  external_calls :: "call_info list"
  complexity :: int

definition BUILTIN_FUNCTIONS :: "string list" where
  "BUILTIN_FUNCTIONS =
     [''print'', ''len'', ''range'', ''str'', ''int'', ''float'', ''list'', ''dict'',
      ''set'', ''tuple'', ''bool'', ''type'', ''isinstance'', ''hasattr'', ''getattr'',
      ''setattr'', ''delattr'', ''all'', ''any'', ''sum'', ''min'', ''max'', ''sorted'',
      ''enumerate'', ''zip'', ''map'', ''filter'', ''open'', ''input'', ''eval'', ''exec'']"

definition get_exception_name :: "node \<Rightarrow> string option" where
  "get_exception_name exc_node =
     (case exc_node of
        Name x l \<Rightarrow> Some x
      | Call f as ks l \<Rightarrow> (case f of Name x l' \<Rightarrow> Some x | _ \<Rightarrow> None)
      | _ \<Rightarrow> None)"

text \<open>
  \<^verbatim>\<open>_extract_call_info\<close>, given the callee \<^verbatim>\<open>call_node.func\<close> and the line
  \<^verbatim>\<open>call_node.lineno\<close> of the call.
\<close>

definition extract_call_info :: "node \<Rightarrow> int \<Rightarrow> call_info option" where
  "extract_call_info func ln =
     (case func of
        Name x l \<Rightarrow>
          Some \<lparr> function_name = x, call_module = None, call_line = ln,
                 is_builtin = (x \<in> set BUILTIN_FUNCTIONS) \<rparr>
      | Attribute v a l \<Rightarrow>
          Some \<lparr> function_name = a,
                 call_module = (case v of Name x l' \<Rightarrow> Some x | _ \<Rightarrow> None),
                 call_line = ln,
                 is_builtin = (a \<in> set BUILTIN_FUNCTIONS) \<rparr>
      | _ \<Rightarrow> None)"

definition handler_record :: "(node \<Rightarrow> string) \<Rightarrow> node excepthandler \<Rightarrow> exception_info" where
  "handler_record unparse handler =
     (let exc_class = (case handler_type handler of None \<Rightarrow> None | Some t \<Rightarrow> Some (unparse t)) in
      \<lparr> exc_type = ''try-except'',
        exception_class = exc_class,
        exc_line = handler_lineno handler,
        exc_context = (case exc_class of
                         None \<Rightarrow> ''except''
                       | Some c \<Rightarrow> (if c \<noteq> [] then ''except '' @ c else ''except'')) \<rparr>)"

definition handler_step ::
    "(node \<Rightarrow> string) \<Rightarrow> function_body_analysis \<Rightarrow> node excepthandler \<Rightarrow> function_body_analysis" where
  "handler_step unparse st handler =
     st\<lparr> exceptions := exceptions st @ [handler_record unparse handler],
         complexity := complexity st + 1 \<rparr>"

text \<open>
  One turn of the loop over \<^verbatim>\<open>ast.walk(func_node)\<close>.  \<open>match_node_type\<close> says whether the
  \<^verbatim>\<open>ast\<close> module has a \<^verbatim>\<open>Match\<close> class (\<^verbatim>\<open>getattr(ast, 'Match', None)\<close>); a node has one
  class, so the \<^verbatim>\<open>elif\<close> chain is a case distinction.
\<close>

fun analyze_node ::
    "(node \<Rightarrow> string) \<Rightarrow> bool \<Rightarrow> function_body_analysis \<Rightarrow> node \<Rightarrow> function_body_analysis" where
  "analyze_node unparse match_node_type st (If t b e l) =
     st\<lparr> branches := branches st @
            [\<lparr> branch_type = ''if'', condition = unparse t, branch_line = l \<rparr>],
         complexity := complexity st + 1 \<rparr>"
| "analyze_node unparse match_node_type st (Match s cs l) =
     (if match_node_type
      then st\<lparr> branches := branches st @
                  [\<lparr> branch_type = ''match'', condition = unparse s, branch_line = l \<rparr>],
               complexity := complexity st + int (length cs) \<rparr>
      else st)"
| "analyze_node unparse match_node_type st (Raise exc cause l) =
     st\<lparr> exceptions := exceptions st @
            [\<lparr> exc_type = ''raise'',
               exception_class = (case exc of None \<Rightarrow> None | Some x \<Rightarrow> get_exception_name x),
               exc_line = l,
               exc_context = (case exc of None \<Rightarrow> [] | Some x \<Rightarrow> unparse x) \<rparr>] \<rparr>"
| "analyze_node unparse match_node_type st (Try b hs e f l) =
     foldl (handler_step unparse) st hs"
| "analyze_node unparse match_node_type st (Call f as ks l) =
     (case extract_call_info f l of
        Some call_info \<Rightarrow> st\<lparr> external_calls := external_calls st @ [call_info] \<rparr>
      | None \<Rightarrow> st)"
| "analyze_node unparse match_node_type st n = st"

definition analyze_function_body ::
    "(node \<Rightarrow> string) \<Rightarrow> bool \<Rightarrow> node funcdef \<Rightarrow> function_body_analysis" where
  "analyze_function_body unparse match_node_type func_node =
     foldl (analyze_node unparse match_node_type)
           \<lparr> branches = [], exceptions = [], external_calls = [], complexity = 1 \<rparr>
           (walk (FunctionDef func_node))"

section \<open>Class context extractor\<close>

record class_context =
  class_name :: string
  base_classes :: "string list"
  class_attributes :: "string set"
  other_methods :: "string list"
  is_dataclass :: bool

text \<open>
  \<open>lineno_of n = None\<close> is \<^verbatim>\<open>hasattr(n, 'lineno')\<close> being false.  The model keeps no line
  for an \<^verbatim>\<open>arg\<close> node: it is never a statement of a class body, where the line is read.
\<close>

fun lineno_of :: "node \<Rightarrow> int option" where
  "lineno_of (Module b) = None"
| "lineno_of (FunctionDef fd) = Some (lineno fd)"
| "lineno_of (ClassDef cd) = Some (cls_lineno cd)"
| "lineno_of (If t b e l) = Some l"
| "lineno_of (Match s cs l) = Some l"
| "lineno_of (MatchCase p g b) = None"
| "lineno_of (Raise e c l) = Some l"
| "lineno_of (Try b hs e f l) = Some l"
| "lineno_of (Call f as ks l) = Some l"
| "lineno_of (Import ns l) = Some l"
| "lineno_of (ImportFrom m ns l) = Some l"
| "lineno_of (Assign ts v l) = Some l"
| "lineno_of (Name x l) = Some l"
| "lineno_of (Attribute v a l) = Some l"
| "lineno_of (Other ol cs) = ol"
| "lineno_of (ArgumentsNode a) = None"
| "lineno_of (ArgNode a) = None"
| "lineno_of (HandlerNode h) = Some (handler_lineno h)"

text \<open>
  The test on one statement of a class body.  \<^verbatim>\<open>item == func_node\<close> compares objects;
  an object that is the function node is equal to it as a value, and a value equal to the
  function node has its line, so the disjunction below holds exactly when the one of the
  source does.
\<close>

definition owner_item :: "node funcdef \<Rightarrow> node \<Rightarrow> bool" where
  "owner_item func_node item =
     (item = FunctionDef func_node \<or>
      (case lineno_of item of None \<Rightarrow> False | Some l \<Rightarrow> l = lineno func_node))"

text \<open>
  The inner loop over \<^verbatim>\<open>node.body\<close>: at the first matching statement it assigns
  \<^verbatim>\<open>parent_class = node\<close> and leaves the inner loop with \<^verbatim>\<open>break\<close>.
\<close>

fun scan_body ::
    "node funcdef \<Rightarrow> node classdef \<Rightarrow> node classdef option \<Rightarrow> node list \<Rightarrow> node classdef option" where
  "scan_body func_node cd parent_class [] = parent_class"
| "scan_body func_node cd parent_class (item # items) =
     (if owner_item func_node item then Some cd
      else scan_body func_node cd parent_class items)"

text \<open>One turn of the outer loop over \<^verbatim>\<open>ast.walk(self.tree)\<close>, and the whole loop.\<close>

fun owner_step :: "node funcdef \<Rightarrow> node classdef option \<Rightarrow> node \<Rightarrow> node classdef option" where
  "owner_step func_node parent_class (ClassDef cd) =
     scan_body func_node cd parent_class (cls_body cd)"
| "owner_step func_node parent_class n = parent_class"

definition find_parent_class :: "node \<Rightarrow> node funcdef \<Rightarrow> node classdef option" where
  "find_parent_class tree func_node = foldl (owner_step func_node) None (walk tree)"

definition target_names :: "node \<Rightarrow> string list" where
  "target_names target =
     (case target of
        Attribute v a l \<Rightarrow>
          (case v of Name x l' \<Rightarrow> (if x = ''self'' then [a] else []) | _ \<Rightarrow> [])
      | Name x l \<Rightarrow> [x]
      | _ \<Rightarrow> [])"

definition assigned_names :: "node \<Rightarrow> string list" where
  "assigned_names n =
     (case n of Assign ts v l \<Rightarrow> concat (map target_names ts) | _ \<Rightarrow> [])"

definition method_names :: "string \<Rightarrow> node list \<Rightarrow> string list" where
  "method_names excluded items =
     concat (map (\<lambda>item. case item of
                            FunctionDef fd \<Rightarrow> (if name fd \<noteq> excluded then [name fd] else [])
                          | _ \<Rightarrow> [])
                 items)"

text \<open>
  \<^verbatim>\<open>list(set(class_attributes))\<close> keeps one copy of every name in an order the language
  does not fix; the field is the set of the names.
\<close>

definition extract_class_context ::
    "(node \<Rightarrow> string) \<Rightarrow> node \<Rightarrow> node funcdef \<Rightarrow> class_context option" where
  "extract_class_context unparse tree func_node =
     (case find_parent_class tree func_node of
        None \<Rightarrow> None
      | Some parent_class \<Rightarrow>
          Some \<lparr> class_name = cls_name parent_class,
                 base_classes = map unparse (bases parent_class),
                 class_attributes =
                   set (concat (map assigned_names (walk (ClassDef parent_class)))),
                 other_methods = method_names (name func_node) (cls_body parent_class),
                 is_dataclass =
                   list_ex (\<lambda>dec. prefix ''dataclass'' (unparse dec))
                           (cls_decorator_list parent_class) \<rparr>)"

section \<open>Import collector\<close>

record import_info =
  imp_module :: string
  imported_names :: "string list"
  imp_alias :: "string option"
  imp_line :: int

text \<open>
  The records one visited node adds.  \<^verbatim>\<open>node.names[0].asname\<close> is tested for truth: an
  alias that is absent or the empty string does not count.
\<close>

fun import_records :: "node \<Rightarrow> import_info list" where
  "import_records (Import names l) =
     map (\<lambda>al. \<lparr> imp_module = alias_name al, imported_names = [''*''],
                  imp_alias = asname al, imp_line = l \<rparr>) names"
| "import_records (ImportFrom m names l) =
     [\<lparr> imp_module = (case m of None \<Rightarrow> [] | Some s \<Rightarrow> s),
        imported_names = map alias_name names,
        imp_alias =
          (if length names = 1 \<and>
              (case asname (names ! 0) of None \<Rightarrow> False | Some s \<Rightarrow> s \<noteq> [])
           then asname (names ! 0) else None),
        imp_line = l \<rparr>]"
| "import_records n = []"

definition extract_imports :: "node \<Rightarrow> import_info list" where
  "extract_imports tree = foldl (\<lambda>imports n. imports @ import_records n) [] (walk tree)"

section \<open>Context assembler\<close>

text \<open>
  \<^verbatim>\<open>str.replace(old, new)\<close>: the occurrences of \<open>old\<close> are found from left to right
  without overlap, and each is replaced by \<open>new\<close>.
\<close>

fun str_replace :: "string \<Rightarrow> string \<Rightarrow> string \<Rightarrow> string" where
  "str_replace old new [] = (if old = [] then new else [])"
| "str_replace old new (c # s) =
     (if old = [] then new @ c # str_replace old new s
      else if prefix old (c # s) then new @ str_replace old new (drop (length old - 1) s)
      else c # str_replace old new s)"

text \<open>The module path computed in \<^verbatim>\<open>build_function_context\<close>; \<open>CHR 0x5C\<close> is the backslash.\<close>

definition derive_module_path :: "string \<Rightarrow> string" where
  "derive_module_path file_path =
     (let module_path =
            str_replace [CHR 0x5C] ''.'' (str_replace ''/'' ''.'' (str_replace ''.py'' [] file_path))
      in if prefix ''.'' module_path then drop 1 module_path else module_path)"

text \<open>
  The assembled record.  The source text of the function and its documentation record are
  cut from the lines of the file; they are left out here.
\<close>

record function_context =
  ctx_signature :: function_signature
  ctx_body_analysis :: function_body_analysis
  ctx_class_context :: "class_context option"
  ctx_imports :: "import_info list"
  ctx_file_path :: string
  ctx_module_path :: string
  ctx_line_range :: "int \<times> int"

definition build_function_context ::
    "(node \<Rightarrow> string) \<Rightarrow> bool \<Rightarrow> string \<Rightarrow> node \<Rightarrow> string \<Rightarrow> int option \<Rightarrow> function_context option" where
  "build_function_context unparse match_node_type path tree fname line_number =
     (case locate_function_node tree fname line_number of
        None \<Rightarrow> None
      | Some func_node \<Rightarrow>
          Some \<lparr> ctx_signature = extract_function_signature unparse func_node,
                 ctx_body_analysis = analyze_function_body unparse match_node_type func_node,
                 ctx_class_context = extract_class_context unparse tree func_node,
                 ctx_imports = extract_imports tree,
                 ctx_file_path = path,
                 ctx_module_path = derive_module_path path,
                 ctx_line_range =
                   (lineno func_node,
                    (case end_lineno func_node of Some e \<Rightarrow> e | None \<Rightarrow> lineno func_node)) \<rparr>)"

section \<open>Notions used in the statements\<close>

subsection \<open>The nodes of a subtree\<close>

text \<open>
  The nodes of the subtree below a node, by recursion on the tree (the node, then the
  subtrees of its children from left to right).  The walk yields the same nodes, each as
  often, in breadth-first order.
\<close>

lemma member_weight_le: "c \<in> set xs \<Longrightarrow> weight c \<le> sum_list (map weight xs)"
  by (induction xs) auto

lemma child_weight_less: "c \<in> set (iter_child_nodes n) \<Longrightarrow> weight c < weight n"
  using member_weight_le[of c "iter_child_nodes n"] children_weight[of n] by simp

function subtree_nodes :: "node \<Rightarrow> node list" where
  "subtree_nodes n = n # concat (map subtree_nodes (iter_child_nodes n))"
  by pat_completeness auto
termination
  by (relation "measure weight") (auto simp: child_weight_less)

declare subtree_nodes.simps [simp del]

fun is_if :: "node \<Rightarrow> bool" where
  "is_if (If t b e l) = True"
| "is_if n = False"

fun is_match :: "node \<Rightarrow> bool" where
  "is_match (Match s cs l) = True"
| "is_match n = False"

fun handler_count :: "node \<Rightarrow> nat" where
  "handler_count (Try b hs e f l) = length hs"
| "handler_count n = 0"

fun case_count :: "node \<Rightarrow> nat" where
  "case_count (Match s cs l) = length cs"
| "case_count n = 0"

definition count_if :: "node \<Rightarrow> nat" where
  "count_if t = length (filter is_if (subtree_nodes t))"

definition total_handlers :: "node \<Rightarrow> nat" where
  "total_handlers t = sum_list (map handler_count (subtree_nodes t))"

definition total_cases :: "node \<Rightarrow> nat" where
  "total_cases t = sum_list (map case_count (subtree_nodes t))"

text \<open>What visiting one node adds to the complexity and to the branch records.\<close>

definition node_contribution :: "bool \<Rightarrow> node \<Rightarrow> nat" where
  "node_contribution mt n =
     (case n of
        If t b e l \<Rightarrow> 1
      | Match s cs l \<Rightarrow> (if mt then length cs else 0)
      | Try b hs e f l \<Rightarrow> length hs
      | _ \<Rightarrow> 0)"

definition branch_records :: "(node \<Rightarrow> string) \<Rightarrow> bool \<Rightarrow> node \<Rightarrow> branch_info list" where
  "branch_records u mt n =
     (case n of
        If t b e l \<Rightarrow> [\<lparr> branch_type = ''if'', condition = u t, branch_line = l \<rparr>]
      | Match s cs l \<Rightarrow>
          (if mt then [\<lparr> branch_type = ''match'', condition = u s, branch_line = l \<rparr>] else [])
      | _ \<Rightarrow> [])"

text \<open>A function definition with one more statement at the end of its body.\<close>

definition with_stmt :: "node funcdef \<Rightarrow> node \<Rightarrow> node funcdef" where
  "with_stmt fd s =
     FuncDef (is_async_def fd) (name fd) (func_args fd) (body fd @ [s])
             (decorator_list fd) (returns fd) (lineno fd) (end_lineno fd)"

subsection \<open>Locator\<close>

text \<open>The test the locator's loop makes on one candidate.\<close>

definition starts_or_spans :: "int \<Rightarrow> node funcdef \<Rightarrow> bool" where
  "starts_or_spans line_number c =
     (lineno c = line_number \<or>
      (case end_lineno c of Some e \<Rightarrow> lineno c \<le> line_number \<and> line_number \<le> e | None \<Rightarrow> False))"

subsection \<open>Example trees\<close>

definition no_args :: "node arguments" where
  "no_args = Arguments [] [] None [] [] None []"

text \<open>
  \<^verbatim>\<open>def f():\<close> (line 1), \<^verbatim>\<open>x = 1\<close> (line 2), a nested \<^verbatim>\<open>def f():\<close> (line 3) and its
  \<^verbatim>\<open>pass\<close> (line 4).
\<close>

definition inner_f :: "node funcdef" where
  "inner_f = FuncDef False ''f'' no_args [Other (Some 4) []] [] None 3 (Some 4)"

definition outer_f :: "node funcdef" where
  "outer_f = FuncDef False ''f'' no_args
     [Assign [Name ''x'' 2] (Other (Some 2) []) 2, FunctionDef inner_f] [] None 1 (Some 4)"

definition nested_module :: node where
  "nested_module = Module [FunctionDef outer_f]"

text \<open>Two functions \<^verbatim>\<open>f\<close> side by side, on lines 1 to 2 and 4 to 5.\<close>

definition first_f :: "node funcdef" where
  "first_f = FuncDef False ''f'' no_args [Other (Some 2) []] [] None 1 (Some 2)"

definition second_f :: "node funcdef" where
  "second_f = FuncDef False ''f'' no_args [Other (Some 5) []] [] None 4 (Some 5)"

definition sibling_module :: node where
  "sibling_module = Module [FunctionDef first_f, FunctionDef second_f]"

subsection \<open>Body analyzer: call records\<close>

fun is_name :: "node \<Rightarrow> bool" where
  "is_name (Name x l) = True"
| "is_name n = False"

fun is_attribute :: "node \<Rightarrow> bool" where
  "is_attribute (Attribute v a l) = True"
| "is_attribute n = False"

text \<open>The call records that visiting one node adds.\<close>

definition call_records :: "node \<Rightarrow> call_info list" where
  "call_records n =
     (case n of Call f as ks l \<Rightarrow> opt_list (extract_call_info f l) | _ \<Rightarrow> [])"

subsection \<open>Signature\<close>

definition has_default :: "parameter \<Rightarrow> bool" where
  "has_default p = (default_value p \<noteq> None)"

text \<open>
  The parameters of a definition in the order in which the source declares them, and the
  ones the extractor reads: \<^verbatim>\<open>args.args\<close>, \<^verbatim>\<open>args.vararg\<close>, \<^verbatim>\<open>args.kwarg\<close>.
\<close>

definition declared_parameters :: "node arguments \<Rightarrow> node arg list" where
  "declared_parameters a =
     posonlyargs a @ args a @ opt_list (vararg a) @ kwonlyargs a @ opt_list (kwarg a)"

definition emitted_args :: "node arguments \<Rightarrow> node arg list" where
  "emitted_args a = args a @ opt_list (vararg a) @ opt_list (kwarg a)"


text \<open>
  The kinds of the parameters read from a parameter list, in order: those of the ordinary
  parameters by the index rule, then those of the variadic parameters.
\<close>

definition kind_sequence :: "node arguments \<Rightarrow> string list" where
  "kind_sequence a =
     map (\<lambda>i. if int i \<ge> int (length (args a)) - int (length (kw_defaults a))
               then ''keyword'' else ''positional'')
         [0..<length (args a)]
     @ (if vararg a = None then [] else [''var_positional''])
     @ (if kwarg a = None then [] else [''var_keyword''])"

subsection \<open>Import collector\<close>

fun is_import_from :: "node \<Rightarrow> bool" where
  "is_import_from (ImportFrom m names l) = True"
| "is_import_from n = False"

fun plain_import_names :: "node \<Rightarrow> nat" where
  "plain_import_names (Import names l) = length names"
| "plain_import_names n = 0"

subsection \<open>Class context\<close>



subsection \<open>Module path as the specification words it\<close>

text \<open>
  The extension \<^verbatim>\<open>.py\<close> removed when the path ends with it, every separator replaced by a
  dot, one leading dot removed.
\<close>

definition spec_module_path :: "string \<Rightarrow> string" where
  "spec_module_path p =
     (let stem = (if suffix ''.py'' p then take (length p - 3) p else p);
          joined = map (\<lambda>c. if c = CHR ''/'' \<or> c = CHR 0x5C then CHR ''.'' else c) stem
      in if prefix ''.'' joined then drop 1 joined else joined)"

subsection \<open>More example trees\<close>

text \<open>An unparser for the examples: the text of a name is the name.\<close>

definition name_text :: "node \<Rightarrow> string" where
  "name_text n = (case n of Name x l \<Rightarrow> x | _ \<Rightarrow> ''?'')"

text \<open>
  \<^verbatim>\<open>def divide(a, b):\<close> with \<^verbatim>\<open>if b == 0: raise ValueError(...)\<close> on lines 2 and 3 and
  \<^verbatim>\<open>return a / b\<close> on line 4; and \<^verbatim>\<open>def add(a: int, b: int) -> int: return a + b\<close>.
\<close>

definition divide_fd :: "node funcdef" where
  "divide_fd = FuncDef False ''divide''
     (Arguments [] [Arg ''a'' None, Arg ''b'' None] None [] [] None [])
     [If (Other (Some 2) [Name ''b'' 2, Other (Some 2) []])
         [Raise (Some (Call (Name ''ValueError'' 3) [Other (Some 3) []] [] 3)) None 3]
         [] 2,
      Other (Some 4) [Other (Some 4) [Name ''a'' 4, Name ''b'' 4]]]
     [] None 1 (Some 4)"

definition add_fd :: "node funcdef" where
  "add_fd = FuncDef False ''add''
     (Arguments [] [Arg ''a'' (Some (Name ''int'' 1)), Arg ''b'' (Some (Name ''int'' 1))]
                None [] [] None [])
     [Other (Some 2) [Other (Some 2) [Name ''a'' 2, Name ''b'' 2]]]
     [] (Some (Name ''int'' 1)) 1 (Some 2)"

text \<open>\<^verbatim>\<open>def g():\<close> whose body is the expression statement \<^verbatim>\<open>a.b.c()\<close> on line 2.\<close>

definition chained_call :: node where
  "chained_call = Call (Attribute (Attribute (Name ''a'' 2) ''b'' 2) ''c'' 2) [] [] 2"

definition chained_fd :: "node funcdef" where
  "chained_fd = FuncDef False ''g'' no_args [Other (Some 2) [chained_call]] [] None 1 (Some 2)"

text \<open>
  \<^verbatim>\<open>def f(self, /, x)\<close>, \<^verbatim>\<open>def area(self, scale=1)\<close> and \<^verbatim>\<open>def f(a, b=x, c=y, *, k=z)\<close>.
\<close>

definition posonly_self_fd :: "node funcdef" where
  "posonly_self_fd = FuncDef False ''f''
     (Arguments [Arg ''self'' None] [Arg ''x'' None] None [] [] None [])
     [Other (Some 2) []] [] None 1 (Some 2)"

definition method_fd :: "node funcdef" where
  "method_fd = FuncDef False ''area''
     (Arguments [] [Arg ''self'' None, Arg ''scale'' None] None [] [] None [Other (Some 1) []])
     [Other (Some 2) []] [] None 1 (Some 2)"













text \<open>\<^verbatim>\<open>def f(a, b, *, k)\<close> and \<^verbatim>\<open>def scale(self, a, b=x, c=y, *, k=z)\<close>.\<close>

definition required_kwonly_args :: "node arguments" where
  "required_kwonly_args =
     Arguments [] [Arg ''a'' None, Arg ''b'' None] None [Arg ''k'' None] [None] None []"

definition required_kwonly_fd :: "node funcdef" where
  "required_kwonly_fd =
     FuncDef False ''f'' required_kwonly_args [Other (Some 2) []] [] None 1 (Some 2)"

definition method_defaults_args :: "node arguments" where
  "method_defaults_args =
     Arguments [] [Arg ''self'' None, Arg ''a'' None, Arg ''b'' None, Arg ''c'' None] None
       [Arg ''k'' None] [Some (Name ''z'' 1)] None [Name ''x'' 1, Name ''y'' 1]"

definition method_defaults_fd :: "node funcdef" where
  "method_defaults_fd =
     FuncDef False ''scale'' method_defaults_args [Other (Some 2) []] [] None 1 (Some 2)"

text \<open>
  \<^verbatim>\<open>import os, sys as system\<close> (line 1), \<^verbatim>\<open>from os.path import join as j\<close> (line 2), and
  \<^verbatim>\<open>def load():\<close> (line 3) with \<^verbatim>\<open>from typing import List as L, Dict as D\<close> (line 4).
\<close>

definition load_fd :: "node funcdef" where
  "load_fd = FuncDef False ''load'' no_args
     [ImportFrom (Some ''typing'') [Alias ''List'' (Some ''L''), Alias ''Dict'' (Some ''D'')] 4]
     [] None 3 (Some 4)"

definition imports_module :: node where
  "imports_module = Module
     [Import [Alias ''os'' None, Alias ''sys'' (Some ''system'')] 1,
      ImportFrom (Some ''os.path'') [Alias ''join'' (Some ''j'')] 2,
      FunctionDef load_fd]"

section \<open>Properties of the traversal\<close>

lemma subtree_nodes_mset:
  "mset (subtree_nodes n) = {#n#} + mset (concat (map subtree_nodes (iter_child_nodes n)))"
  by (subst subtree_nodes.simps) simp

lemma walk_queue_mset: "mset (walk_queue q) = mset (concat (map subtree_nodes q))"
proof (induction q rule: walk_queue.induct)
  case 1
  show ?case by simp
next
  case (2 n todo)
  have "mset (walk_queue (n # todo)) = {#n#} + mset (walk_queue (todo @ iter_child_nodes n))"
    by simp
  also have "\<dots> = {#n#} + mset (concat (map subtree_nodes (todo @ iter_child_nodes n)))"
    using 2 by simp
  also have "\<dots> = mset (subtree_nodes n) + mset (concat (map subtree_nodes todo))"
    by (simp add: subtree_nodes_mset)
  finally show ?case by simp
qed

lemma walk_mset: "mset (walk n) = mset (subtree_nodes n)"
  by (simp add: walk_def walk_queue_mset subtree_nodes_mset)

lemma sum_list_walk:
  "sum_list (map f (walk n)) = sum_list (map (f::node \<Rightarrow> nat) (subtree_nodes n))"
proof -
  have "mset (map f (walk n)) = mset (map f (subtree_nodes n))"
    by (simp add: walk_mset)
  then show ?thesis by (metis sum_mset_sum_list)
qed

lemma subtree_sum_root:
  "sum_list (map f (subtree_nodes n)) =
     f n + sum_list (map (f::node \<Rightarrow> nat) (concat (map subtree_nodes (iter_child_nodes n))))"
  by (subst subtree_nodes.simps) simp

lemma subtree_sum_with_stmt:
  "sum_list (map f (subtree_nodes (FunctionDef (with_stmt fd s)))) =
     f (FunctionDef (with_stmt fd s))
     + sum_list (map f (concat (map subtree_nodes (iter_child_nodes (FunctionDef fd)))))
     + sum_list (map (f::node \<Rightarrow> nat) (subtree_nodes s))"
  by (subst subtree_nodes.simps) (simp add: with_stmt_def)

section \<open>Properties of the body analyzer's loop\<close>

lemma handler_fold:
  "complexity (foldl (handler_step u) st hs) = complexity st + int (length hs)"
  "external_calls (foldl (handler_step u) st hs) = external_calls st"
  "branches (foldl (handler_step u) st hs) = branches st"
  by (induction hs arbitrary: st) (simp_all add: handler_step_def)

lemma analyze_node_complexity:
  "complexity (analyze_node u mt st n) = complexity st + int (node_contribution mt n)"
  by (cases n) (simp_all add: node_contribution_def handler_fold split: option.split)

lemma analyze_fold_complexity:
  "complexity (foldl (analyze_node u mt) st ns) =
     complexity st + int (sum_list (map (node_contribution mt) ns))"
  by (induction ns arbitrary: st) (simp_all add: analyze_node_complexity)

lemma complexity_walk:
  "complexity (analyze_function_body u mt fd) =
     1 + int (sum_list (map (node_contribution mt) (subtree_nodes (FunctionDef fd))))"
  by (simp add: analyze_function_body_def analyze_fold_complexity sum_list_walk)

lemma contribution_split:
  "mt \<or> \<not> is_match n \<Longrightarrow>
   node_contribution mt n = (if is_if n then 1 else 0) + handler_count n + case_count n"
  by (cases n) (auto simp: node_contribution_def)

lemma contribution_sum_split:
  "mt \<or> (\<forall>n \<in> set ns. \<not> is_match n) \<Longrightarrow>
   sum_list (map (node_contribution mt) ns) =
     length (filter is_if ns) + sum_list (map handler_count ns) + sum_list (map case_count ns)"
proof (induction ns)
  case Nil
  show ?case by simp
next
  case (Cons n ns)
  then have "mt \<or> \<not> is_match n" and "mt \<or> (\<forall>n \<in> set ns. \<not> is_match n)" by auto
  then show ?case using Cons.IH contribution_split[of mt n] by simp
qed

lemma analyze_node_branches:
  "branches (analyze_node u mt st n) = branches st @ branch_records u mt n"
  by (cases n) (simp_all add: branch_records_def handler_fold split: option.split)

lemma analyze_fold_branches:
  "branches (foldl (analyze_node u mt) st ns) = branches st @ concat (map (branch_records u mt) ns)"
  by (induction ns arbitrary: st) (simp_all add: analyze_node_branches)

lemma no_branches_no_contribution:
  assumes "concat (map (branch_records u mt) ns) = []"
  shows "sum_list (map (node_contribution mt) ns) = sum_list (map handler_count ns)"
  using assms
proof (induction ns)
  case Nil
  show ?case by simp
next
  case (Cons n ns)
  then have "branch_records u mt n = []" and "concat (map (branch_records u mt) ns) = []"
    by simp_all
  moreover from \<open>branch_records u mt n = []\<close>
  have "node_contribution mt n = handler_count n"
    by (cases n) (auto simp: branch_records_def node_contribution_def split: if_splits)
  ultimately show ?case using Cons.IH by simp
qed

section \<open>Properties of the locator's loop\<close>

lemma scan_candidates_find: "scan_candidates ln cs = find (starts_or_spans ln) cs"
  by (induction cs) (auto simp: starts_or_spans_def)

lemma nested_candidates: "candidates nested_module ''f'' = [outer_f, inner_f]"
  by (simp add: candidates_def walk_def nested_module_def outer_f_def inner_f_def no_args_def)

lemma sibling_candidates: "candidates sibling_module ''f'' = [first_f, second_f]"
  by (simp add: candidates_def walk_def sibling_module_def first_f_def second_f_def no_args_def)

lemma analyze_node_calls:
  "external_calls (analyze_node u mt st n) = external_calls st @ call_records n"
  by (cases n) (simp_all add: call_records_def handler_fold split: option.split)

lemma analyze_fold_calls:
  "external_calls (foldl (analyze_node u mt) st ns) = external_calls st @ concat (map call_records ns)"
  by (induction ns arbitrary: st) (simp_all add: analyze_node_calls)

lemma divide_counts:
  "count_if (FunctionDef divide_fd) = 1"
  "total_handlers (FunctionDef divide_fd) = 0"
  "total_cases (FunctionDef divide_fd) = 0"
  by (simp_all add: count_if_def total_handlers_def total_cases_def divide_fd_def
        subtree_nodes.simps)

lemma add_counts:
  "total_handlers (FunctionDef add_fd) = 0"
  "branches (analyze_function_body (\<lambda>_. []) True add_fd) = []"
  by (simp_all add: total_handlers_def add_fd_def subtree_nodes.simps
        analyze_function_body_def walk_def)

section \<open>Properties of the class scan\<close>




section \<open>Properties of the import collector's loop\<close>

lemma extract_imports_concat: "extract_imports tree = concat (map import_records (walk tree))"
proof -
  have "foldl (\<lambda>imports n. imports @ import_records n) acc ns = acc @ concat (map import_records ns)"
    for acc ns
    by (induction ns arbitrary: acc) simp_all
  then show ?thesis by (simp add: extract_imports_def)
qed

section \<open>Properties of the parameter loop\<close>

lemma regular_parameters_length [simp]:
  "length (regular_parameters u a) = length (args a)"
  by (simp add: regular_parameters_def)

lemma regular_parameters_nth:
  "i < length (args a) \<Longrightarrow>
   regular_parameters u a ! i = regular_parameter u a i (args a ! i)"
  by (simp add: regular_parameters_def nth_enumerate_eq)

text \<open>The index into \<^verbatim>\<open>args.defaults\<close> is never out of range.\<close>

lemma default_index_in_range:
  assumes "i < length (args a)" "int i \<ge> int (length (args a)) - int (length (defaults a))"
  shows "nat (int i - (int (length (args a)) - int (length (defaults a)))) < length (defaults a)"
  using assms by linarith

lemma count_trailing: "length (filter (\<lambda>i. int n - int d \<le> int i) [0..<n]) = min n d"
proof -
  have split: "[0..<n] = [0..<n - d] @ [n - d..<n]"
    by (metis diff_le_self le0 upt_add_eq_append le_add_diff_inverse)
  have low: "filter (\<lambda>i. int n - int d \<le> int i) [0..<n - d] = []"
    by (auto simp: filter_empty_conv)
  have high: "filter (\<lambda>i. int n - int d \<le> int i) [n - d..<n] = [n - d..<n]"
    by (rule filter_True) auto
  have "filter (\<lambda>i. int n - int d \<le> int i) [0..<n] =
        filter (\<lambda>i. int n - int d \<le> int i) [0..<n - d]
        @ filter (\<lambda>i. int n - int d \<le> int i) [n - d..<n]"
    by (subst split) simp
  then show ?thesis by (simp add: low high)
qed

lemma filter_enumerate_length:
  "length (filter (\<lambda>(i, x). P i) (enumerate k xs)) = length (filter P [k..<k + length xs])"
proof (induction xs arbitrary: k)
  case Nil
  show ?case by simp
next
  case (Cons x xs)
  have "[k..<Suc k + length xs] = k # [Suc k..<Suc k + length xs]"
    by (rule upt_conv_Cons) simp
  moreover have "k + length (x # xs) = Suc k + length xs" by simp
  ultimately have "[k..<k + length (x # xs)] = k # [Suc k..<Suc k + length xs]"
    by presburger
  then show ?case using Cons[of "Suc k"] by (simp del: upt_Suc)
qed

lemma regular_has_default_count:
  "length (filter has_default (regular_parameters u a)) = min (length (args a)) (length (defaults a))"
proof -
  have "length (filter has_default (regular_parameters u a)) =
        length (filter (\<lambda>(i, x). int (length (args a)) - int (length (defaults a)) \<le> int i)
                       (enumerate 0 (args a)))"
    unfolding regular_parameters_def filter_map length_map
    by (rule arg_cong[where f = length], rule filter_cong)
       (auto simp: has_default_def regular_parameter_def Let_def split: if_splits)
  also have "\<dots> = length (filter (\<lambda>i. int (length (args a)) - int (length (defaults a)) \<le> int i)
                              [0..<length (args a)])"
    using filter_enumerate_length[of _ 0 "args a"] by simp
  also have "\<dots> = min (length (args a)) (length (defaults a))"
    by (rule count_trailing)
  finally show ?thesis .
qed

lemma variadic_no_default: "filter has_default (variadic_parameters u a) = []"
  by (simp add: variadic_parameters_def var_parameter_def has_default_def split: option.split)

lemma filter_tl_length: "length (filter P (tl xs)) \<le> length (filter P xs)"
  by (cases xs) auto


lemma signature_parameters:
  "parameters (extract_function_signature u fd) =
     (if is_method (extract_function_signature u fd)
      then tl (collected_parameters u (func_args fd))
      else collected_parameters u (func_args fd))"
  by (simp add: extract_function_signature_def Let_def)

lemma collected_names:
  "map param_name (collected_parameters u a) = map arg (emitted_args a)"
proof -
  have "map param_name (regular_parameters u a) = map arg (args a)"
    by (rule nth_equalityI) (simp_all add: regular_parameters_nth regular_parameter_def Let_def)
  then show ?thesis
    by (simp add: collected_parameters_def emitted_args_def variadic_parameters_def
          var_parameter_def split: option.split)
qed

lemma collected_length:
  "length (collected_parameters u a) = length (emitted_args a)"
  using collected_names[of u a] by (metis length_map)

lemma collected_hd_name:
  "collected_parameters u a \<noteq> [] \<Longrightarrow>
   param_name (hd (collected_parameters u a)) = arg (hd (emitted_args a))"
  using collected_names[of u a] by (metis hd_map map_is_Nil_conv)

lemma is_method_iff:
  "is_method (extract_function_signature u fd) \<longleftrightarrow>
     emitted_args (func_args fd) \<noteq> [] \<and>
     arg (hd (emitted_args (func_args fd))) \<in> {''self'', ''cls''}"
proof (cases "collected_parameters u (func_args fd) = []")
  case True
  then show ?thesis
    using collected_length[of u "func_args fd"] by (simp add: extract_function_signature_def)
next
  case False
  then show ?thesis
    using collected_length[of u "func_args fd"] collected_hd_name[of u "func_args fd"]
    by (auto simp: extract_function_signature_def Let_def)
qed






section \<open>Lists with the same elements\<close>

lemma concat_map_mset_cong:
  "mset xs = mset ys \<Longrightarrow> mset (concat (map g xs)) = mset (concat (map g ys))"
proof -
  assume e: "mset xs = mset ys"
  have "mset (concat (map g zs)) = sum_mset (image_mset (\<lambda>z. mset (g z)) (mset zs))" for zs
    by (induction zs) simp_all
  with e show ?thesis by simp
qed



section \<open>The classes and imports of a tree do not depend on the order of the walk\<close>




lemma import_records_length:
  "length (import_records n) = (if is_import_from n then 1 else 0) + plain_import_names n"
  by (cases n) simp_all

lemma extract_imports_mset:
  "mset (extract_imports tree) = mset (concat (map import_records (subtree_nodes tree)))"
  unfolding extract_imports_concat by (rule concat_map_mset_cong) (rule walk_mset)

lemma extract_imports_length:
  "length (extract_imports tree) =
     length (filter is_import_from (subtree_nodes tree))
     + sum_list (map plain_import_names (subtree_nodes tree))"
proof -
  have "length (concat (map import_records ns)) =
          length (filter is_import_from ns) + sum_list (map plain_import_names ns)" for ns
    by (induction ns) (simp_all add: import_records_length)
  moreover have "length (extract_imports tree) =
          length (concat (map import_records (subtree_nodes tree)))"
    using extract_imports_mset[of tree] by (metis size_mset)
  ultimately show ?thesis by simp
qed

lemma subtree_import_records:
  assumes "n \<in> set (subtree_nodes tree)"
  shows "set (import_records n) \<subseteq> set (extract_imports tree)"
proof -
  have "set (import_records n) \<subseteq> set (concat (map import_records (subtree_nodes tree)))"
    using assms by auto
  also have "\<dots> = set (extract_imports tree)"
    using extract_imports_mset[of tree] by (metis set_mset_mset)
  finally show ?thesis .
qed

lemma imports_module_nodes:
  "subtree_nodes imports_module =
     [imports_module,
      Import [Alias ''os'' None, Alias ''sys'' (Some ''system'')] 1,
      ImportFrom (Some ''os.path'') [Alias ''join'' (Some ''j'')] 2,
      FunctionDef load_fd,
      ArgumentsNode no_args,
      ImportFrom (Some ''typing'') [Alias ''List'' (Some ''L''), Alias ''Dict'' (Some ''D'')] 4]"
  by (simp add: imports_module_def load_fd_def no_args_def subtree_nodes.simps)

section \<open>The extracted parameter list\<close>

lemma signature_parameters_drop:
  "parameters (extract_function_signature u fd) =
     drop (if is_method (extract_function_signature u fd) then 1 else 0)
          (collected_parameters u (func_args fd))"
  by (simp add: signature_parameters drop_Suc)

lemma is_method_collected:
  "is_method (extract_function_signature u fd) \<Longrightarrow> collected_parameters u (func_args fd) \<noteq> []"
  by (simp add: extract_function_signature_def Let_def)

lemma output_ordinary_nth:
  assumes "i < length (args (func_args fd))"
    and "(if is_method (extract_function_signature u fd) then 1 else 0) \<le> i"
  shows "parameters (extract_function_signature u fd)
           ! (i - (if is_method (extract_function_signature u fd) then 1 else 0)) =
         regular_parameter u (func_args fd) i (args (func_args fd) ! i)"
proof -
  let ?off = "if is_method (extract_function_signature u fd) then 1 else 0::nat"
  have "?off + (i - ?off) = i" using assms(2) by simp
  moreover have "?off \<le> length (collected_parameters u (func_args fd))"
    using assms by (simp add: collected_parameters_def)
  ultimately have "parameters (extract_function_signature u fd) ! (i - ?off) =
        collected_parameters u (func_args fd) ! i"
    by (simp add: signature_parameters_drop del: One_nat_def)
  also have "\<dots> = regular_parameters u (func_args fd) ! i"
    using assms(1) by (simp add: collected_parameters_def nth_append)
  also have "\<dots> = regular_parameter u (func_args fd) i (args (func_args fd) ! i)"
    using assms(1) by (rule regular_parameters_nth)
  finally show ?thesis .
qed

lemma filter_drop_length: "length (filter P (drop n xs)) \<le> length (filter P xs)"
proof -
  have "length (filter P xs) = length (filter P (take n xs)) + length (filter P (drop n xs))"
    by (metis append_take_drop_id filter_append length_append)
  then show ?thesis by simp
qed

lemma collected_default_count:
  "length (filter has_default (collected_parameters u a)) =
     min (length (args a)) (length (defaults a))"
  by (simp add: collected_parameters_def variadic_no_default regular_has_default_count)

lemma regular_kinds:
  "map kind (regular_parameters u a) =
     map (\<lambda>i. if int i \<ge> int (length (args a)) - int (length (kw_defaults a))
               then ''keyword'' else ''positional'')
         [0..<length (args a)]"
  by (rule nth_equalityI) (simp_all add: regular_parameters_nth regular_parameter_def Let_def)

lemma variadic_kinds:
  "map kind (variadic_parameters u a) =
     (if vararg a = None then [] else [''var_positional''])
     @ (if kwarg a = None then [] else [''var_keyword''])"
  by (simp add: variadic_parameters_def var_parameter_def split: option.split)

lemma collected_kinds: "map kind (collected_parameters u a) = kind_sequence a"
  by (simp add: collected_parameters_def regular_kinds variadic_kinds kind_sequence_def)

lemma is_method_unparse:
  "is_method (extract_function_signature u fd) = is_method (extract_function_signature u' fd)"
  by (simp add: is_method_iff)

section \<open>Class context: the owner\<close>




section \<open>Node locator: choice by line\<close>

text \<open>
  Claim C2 as stated: whenever some candidate starts on the query line, that candidate
  is returned in preference to a candidate that only spans the line.  It fails for a
  function nested in a function of the same name: in \<open>nested_module\<close> the inner \<^verbatim>\<open>f\<close>
  starts on line 3, the outer \<^verbatim>\<open>f\<close> spans lines 1 to 4 and comes first in the walk, and
  the query for line 3 returns the outer one.
\<close>

theorem locate_exact_line_counterexample:
  "inner_f \<in> set (candidates nested_module ''f'') \<and> lineno inner_f = 3
   \<and> locate_function_node nested_module ''f'' (Some 3) = Some outer_f
   \<and> lineno outer_f = 1"
  by (simp add: nested_candidates locate_function_node_def)
     (simp add: outer_f_def inner_f_def)

text \<open>
  Claim C2, amended: for a non-empty candidate list and a query line, the locator returns
  the first candidate in traversal order that starts on the query line or whose span from
  start line to end line contains it, and the first candidate when there is none.  So a
  candidate that starts on the query line is returned whenever no earlier candidate starts
  on or spans that line; this is the case for two functions of the same name neither of
  which encloses the other.
\<close>

theorem locate_first_start_or_span:
  "candidates tree fname \<noteq> [] \<longrightarrow>
     locate_function_node tree fname (Some ln) =
       Some (case find (starts_or_spans ln) (candidates tree fname) of
               Some c \<Rightarrow> c
             | None \<Rightarrow> hd (candidates tree fname))
     \<and> (\<forall>i < length (candidates tree fname).
           lineno (candidates tree fname ! i) = ln \<and>
           (\<forall>j < i. \<not> starts_or_spans ln (candidates tree fname ! j)) \<longrightarrow>
           locate_function_node tree fname (Some ln) = Some (candidates tree fname ! i))"
proof (intro impI conjI allI)
  assume ne: "candidates tree fname \<noteq> []"
  show loc: "locate_function_node tree fname (Some ln) =
       Some (case find (starts_or_spans ln) (candidates tree fname) of
               Some c \<Rightarrow> c
             | None \<Rightarrow> hd (candidates tree fname))"
    using ne by (simp add: locate_function_node_def scan_candidates_find split: option.split)
  fix i
  assume i: "i < length (candidates tree fname)"
    and h: "lineno (candidates tree fname ! i) = ln \<and>
           (\<forall>j < i. \<not> starts_or_spans ln (candidates tree fname ! j))"
  then have "starts_or_spans ln (candidates tree fname ! i)"
    by (simp add: starts_or_spans_def)
  with i h have "find (starts_or_spans ln) (candidates tree fname) = Some (candidates tree fname ! i)"
    unfolding find_Some_iff by blast
  with loc show "locate_function_node tree fname (Some ln) = Some (candidates tree fname ! i)"
    by simp
qed

theorem locate_first_start_or_span_witness:
  "candidates sibling_module ''f'' \<noteq> []
   \<and> locate_function_node sibling_module ''f'' (Some 4) = Some second_f
   \<and> locate_function_node sibling_module ''f'' (Some 1) = Some first_f
   \<and> lineno second_f = 4 \<and> lineno first_f = 1"
proof -
  have ne: "candidates sibling_module ''f'' \<noteq> []"
    by (simp add: sibling_candidates)
  have s1: "\<not> starts_or_spans 4 first_f" "lineno second_f = 4" "lineno first_f = 1"
    by (simp_all add: starts_or_spans_def first_f_def second_f_def)
  from locate_first_start_or_span[of sibling_module "''f''" 4] ne
  have "\<forall>i < length (candidates sibling_module ''f'').
           lineno (candidates sibling_module ''f'' ! i) = 4 \<and>
           (\<forall>j < i. \<not> starts_or_spans 4 (candidates sibling_module ''f'' ! j)) \<longrightarrow>
           locate_function_node sibling_module ''f'' (Some 4) = Some (candidates sibling_module ''f'' ! i)"
    by blast
  from this[rule_format, of 1]
  have a: "locate_function_node sibling_module ''f'' (Some 4) = Some second_f"
    using s1 by (simp add: sibling_candidates)
  from locate_first_start_or_span[of sibling_module "''f''" 1] ne
  have "locate_function_node sibling_module ''f'' (Some 1) =
       Some (case find (starts_or_spans 1) (candidates sibling_module ''f'') of
               Some c \<Rightarrow> c
             | None \<Rightarrow> hd (candidates sibling_module ''f''))"
    by blast
  then have b: "locate_function_node sibling_module ''f'' (Some 1) = Some first_f"
    using s1 by (simp add: sibling_candidates starts_or_spans_def)
  from ne a b s1 show ?thesis by simp
qed

section \<open>Body analyzer: which calls give a record\<close>

text \<open>
  Claim C3 as stated: an attribute access on a base that is not a bare name gives no call
  record.  The source returns \<^verbatim>\<open>None\<close> only in the \<^verbatim>\<open>else\<close> branch, for a callee that is
  neither a name nor an attribute access; for \<^verbatim>\<open>a.b.c()\<close> it gives a record with
  function name \<^verbatim>\<open>c\<close> and no receiver.
\<close>

theorem attribute_on_non_name_counterexample:
  "chained_call \<in> set (walk (FunctionDef chained_fd))
   \<and> external_calls (analyze_function_body (\<lambda>_. []) True chained_fd) =
       [\<lparr> function_name = ''c'', call_module = None, call_line = 2, is_builtin = False \<rparr>]"
  by (simp add: analyze_function_body_def walk_def chained_fd_def chained_call_def no_args_def
        extract_call_info_def BUILTIN_FUNCTIONS_def)

text \<open>
  Claim C3, amended: for every call node visited by the body analyzer, a call record is
  produced exactly when the callee is a bare name (function name that name, receiver
  absent) or an attribute access (function name the attribute; receiver the base name
  when the base is a bare name, absent otherwise); for every other callee shape, such as
  a call on a call or a subscripted callee, no call record is produced for that node.
  The records of the analysis are those of the visited nodes, in the order of the walk.
\<close>

theorem call_record_shapes:
  "external_calls (analyze_function_body unparse match_node_type fd) =
     concat (map call_records (walk (FunctionDef fd)))
   \<and> (call_records (Call f as ks l) \<noteq> [] \<longleftrightarrow> is_name f \<or> is_attribute f)
   \<and> call_records (Call (Name x lx) as ks l) =
       [\<lparr> function_name = x, call_module = None, call_line = l,
          is_builtin = (x \<in> set BUILTIN_FUNCTIONS) \<rparr>]
   \<and> call_records (Call (Attribute (Name x lx) a la) as ks l) =
       [\<lparr> function_name = a, call_module = Some x, call_line = l,
          is_builtin = (a \<in> set BUILTIN_FUNCTIONS) \<rparr>]
   \<and> (\<not> is_name v \<longrightarrow>
        call_records (Call (Attribute v a la) as ks l) =
          [\<lparr> function_name = a, call_module = None, call_line = l,
             is_builtin = (a \<in> set BUILTIN_FUNCTIONS) \<rparr>])
   \<and> (\<not> is_name f \<and> \<not> is_attribute f \<longrightarrow> call_records (Call f as ks l) = [])"
proof (intro conjI)
  show "external_calls (analyze_function_body unparse match_node_type fd) =
     concat (map call_records (walk (FunctionDef fd)))"
    by (simp add: analyze_function_body_def analyze_fold_calls)
  show "call_records (Call f as ks l) \<noteq> [] \<longleftrightarrow> is_name f \<or> is_attribute f"
    by (cases f) (simp_all add: call_records_def extract_call_info_def)
  show "\<not> is_name v \<longrightarrow>
        call_records (Call (Attribute v a la) as ks l) =
          [\<lparr> function_name = a, call_module = None, call_line = l,
             is_builtin = (a \<in> set BUILTIN_FUNCTIONS) \<rparr>]"
    by (cases v) (simp_all add: call_records_def extract_call_info_def)
  show "\<not> is_name f \<and> \<not> is_attribute f \<longrightarrow> call_records (Call f as ks l) = []"
    by (cases f) (simp_all add: call_records_def extract_call_info_def)
qed (simp_all add: call_records_def extract_call_info_def)

theorem call_record_shapes_witness:
  "\<not> is_name (Attribute (Name ''a'' 2) ''b'' 2)
   \<and> call_records chained_call =
       [\<lparr> function_name = ''c'', call_module = None, call_line = 2, is_builtin = False \<rparr>]
   \<and> \<not> is_name (Call (Name ''f'' 1) [] [] 1) \<and> \<not> is_attribute (Call (Name ''f'' 1) [] [] 1)
   \<and> call_records (Call (Call (Name ''f'' 1) [] [] 1) [] [] 1) = []"
proof -
  have h1: "\<not> is_name (Attribute (Name ''a'' 2) ''b'' 2)" by simp
  have h2: "\<not> is_name (Call (Name ''f'' 1) [] [] 1) \<and> \<not> is_attribute (Call (Name ''f'' 1) [] [] 1)"
    by simp
  from call_record_shapes[where v = "Attribute (Name ''a'' 2) ''b'' 2" and a = "''c''" and la = 2
      and as = "[]" and ks = "[]" and l = 2] h1
  have a: "call_records chained_call =
       [\<lparr> function_name = ''c'', call_module = None, call_line = 2,
          is_builtin = (''c'' \<in> set BUILTIN_FUNCTIONS) \<rparr>]"
    unfolding chained_call_def by blast
  from call_record_shapes[where f = "Call (Name ''f'' 1) [] [] 1" and as = "[]" and ks = "[]" and l = 1] h2
  have b: "call_records (Call (Call (Name ''f'' 1) [] [] 1) [] [] 1) = []"
    by blast
  from a b h1 h2 show ?thesis by (simp add: BUILTIN_FUNCTIONS_def)
qed

section \<open>Signature: defaults and kinds of the ordinary parameters\<close>

text \<open>
  Claim C4 as stated: the kind of the parameter of index \<open>i\<close> is \<^verbatim>\<open>keyword\<close> iff
  \<open>i \<ge> n - k\<close> with \<open>k\<close> the number of keyword-only defaults.  The source subtracts the
  length of \<^verbatim>\<open>args.kw_defaults\<close>, which has one entry for every keyword-only parameter,
  \<^verbatim>\<open>None\<close> for one without default.  For \<^verbatim>\<open>def f(a, b, *, k)\<close> there is no keyword-only
  default, so the claim makes \<^verbatim>\<open>b\<close> positional (\<open>1 \<ge> 2 - 0\<close> is false), and the extracted
  kind of \<^verbatim>\<open>b\<close> is \<^verbatim>\<open>keyword\<close>.
\<close>

theorem kind_by_default_count_counterexample:
  "length (args (func_args required_kwonly_fd)) = 2
   \<and> filter (\<lambda>d. d \<noteq> None) (kw_defaults (func_args required_kwonly_fd)) = []
   \<and> \<not> int 1 \<ge> int (length (args (func_args required_kwonly_fd)))
               - int (length (filter (\<lambda>d. d \<noteq> None) (kw_defaults (func_args required_kwonly_fd))))
   \<and> map kind (parameters (extract_function_signature name_text required_kwonly_fd)) =
       [''positional'', ''keyword'']"
  by (simp add: required_kwonly_fd_def required_kwonly_args_def extract_function_signature_def
        collected_parameters_def regular_parameters_def regular_parameter_def
        variadic_parameters_def)

text \<open>
  Claim C4, amended: let \<open>n\<close> be the number of ordinary parameters (\<^verbatim>\<open>args.args\<close>), \<open>d\<close> the
  number of defaults (\<^verbatim>\<open>args.defaults\<close>) and \<open>k\<close> the number of keyword-only parameters
  (the length of \<^verbatim>\<open>args.kw_defaults\<close>).  In the extracted signature the entry of the ordinary
  parameter of index \<open>i\<close> (at position \<open>i\<close>, or \<open>i - 1\<close> when the method check has removed
  the first parameter) has a default value iff \<open>i \<ge> n - d\<close>, the value being the text of
  the default of index \<open>i - (n - d)\<close>, and its kind is \<^verbatim>\<open>keyword\<close> iff \<open>i \<ge> n - k\<close> and
  \<^verbatim>\<open>positional\<close> otherwise (the differences taken in the integers).  So at most
  \<open>min n d\<close> entries, trailing ordinary ones, have a default, exactly that many when no
  parameter is removed.  The sequence of kinds is \<open>kind_sequence\<close> of the parameter list
  without the removed entry: it is fixed by the node, whatever text the unparser gives,
  so extracting it again yields the same sequence.
\<close>

theorem parameter_default_and_kind:
  assumes "a = func_args fd"
    and "sg = extract_function_signature unparse fd"
    and "off = (if is_method sg then 1 else 0)"
    and "n = length (args a)" and "d = length (defaults a)" and "k = length (kw_defaults a)"
  shows
  "(\<forall>i < n. off \<le> i \<longrightarrow>
        param_name (parameters sg ! (i - off)) = arg (args a ! i)
        \<and> (default_value (parameters sg ! (i - off)) \<noteq> None \<longleftrightarrow> int i \<ge> int n - int d)
        \<and> (int i \<ge> int n - int d \<longrightarrow>
             nat (int i - (int n - int d)) < d
             \<and> default_value (parameters sg ! (i - off)) =
                 Some (unparse (defaults a ! nat (int i - (int n - int d)))))
        \<and> (kind (parameters sg ! (i - off)) = ''keyword'' \<longleftrightarrow> int i \<ge> int n - int k)
        \<and> (kind (parameters sg ! (i - off)) = ''positional'' \<longleftrightarrow> \<not> int i \<ge> int n - int k))
   \<and> length (filter has_default (parameters sg)) \<le> min n d
   \<and> (\<not> is_method sg \<longrightarrow> length (filter has_default (parameters sg)) = min n d)
   \<and> map kind (parameters sg) = drop off (kind_sequence a)
   \<and> map kind (parameters (extract_function_signature unparse' fd)) = map kind (parameters sg)"
proof (intro conjI allI impI)
  show "length (filter has_default (parameters sg)) \<le> min n d"
    using filter_drop_length[of has_default _ "collected_parameters unparse a"]
    by (simp add: assms signature_parameters_drop collected_default_count del: One_nat_def)
  show "length (filter has_default (parameters sg)) = min n d" if "\<not> is_method sg"
    using that by (simp add: assms signature_parameters_drop collected_default_count)
  show ks: "map kind (parameters sg) = drop off (kind_sequence a)"
    by (simp add: assms signature_parameters_drop collected_kinds del: One_nat_def flip: drop_map)
  show "map kind (parameters (extract_function_signature unparse' fd)) = map kind (parameters sg)"
    using is_method_unparse[of unparse fd unparse']
    by (simp add: assms signature_parameters_drop collected_kinds del: One_nat_def flip: drop_map)
next
  fix i assume i: "i < n" and o: "off \<le> i"
  have p: "parameters sg ! (i - off) = regular_parameter unparse a i (args a ! i)"
    using i o output_ordinary_nth[of i fd unparse] by (simp add: assms)
  show "param_name (parameters sg ! (i - off)) = arg (args a ! i)"
    by (simp add: p regular_parameter_def Let_def)
  show "default_value (parameters sg ! (i - off)) \<noteq> None \<longleftrightarrow> int i \<ge> int n - int d"
    by (simp add: p regular_parameter_def Let_def assms(4,5))
  show "kind (parameters sg ! (i - off)) = ''keyword'' \<longleftrightarrow> int i \<ge> int n - int k"
    by (simp add: p regular_parameter_def Let_def assms(4,6))
  show "kind (parameters sg ! (i - off)) = ''positional'' \<longleftrightarrow> \<not> int i \<ge> int n - int k"
    by (simp add: p regular_parameter_def Let_def assms(4,6))
  assume dd: "int i \<ge> int n - int d"
  show "nat (int i - (int n - int d)) < d"
    using i dd by linarith
  show "default_value (parameters sg ! (i - off)) =
                 Some (unparse (defaults a ! nat (int i - (int n - int d))))"
    using dd by (simp add: p regular_parameter_def Let_def assms(4,5))
qed

theorem parameter_default_and_kind_witness:
  "is_method (extract_function_signature name_text method_defaults_fd)
   \<and> length (args (func_args method_defaults_fd)) = 4
   \<and> length (defaults (func_args method_defaults_fd)) = 2
   \<and> length (kw_defaults (func_args method_defaults_fd)) = 1
   \<and> map param_name (parameters (extract_function_signature name_text method_defaults_fd)) =
       [''a'', ''b'', ''c'']
   \<and> map default_value (parameters (extract_function_signature name_text method_defaults_fd)) =
       [None, Some ''x'', Some ''y'']
   \<and> map kind (parameters (extract_function_signature name_text method_defaults_fd)) =
       [''positional'', ''positional'', ''keyword'']
   \<and> length (filter has_default
         (parameters (extract_function_signature name_text method_defaults_fd))) = 2
   \<and> map kind (parameters (extract_function_signature (\<lambda>_. []) method_defaults_fd)) =
       [''positional'', ''positional'', ''keyword'']"
proof -
  let ?sg = "extract_function_signature name_text method_defaults_fd"
  let ?a = "func_args method_defaults_fd"
  have m: "is_method ?sg"
    by (simp add: is_method_iff emitted_args_def method_defaults_fd_def method_defaults_args_def)
  have len: "length (args ?a) = 4" "length (defaults ?a) = 2" "length (kw_defaults ?a) = 1"
    by (simp_all add: method_defaults_fd_def method_defaults_args_def)
  have ds: "defaults ?a ! 0 = Name ''x'' 1" "defaults ?a ! Suc 0 = Name ''y'' 1"
    "args ?a ! Suc 0 = Arg ''a'' None" "args ?a ! 2 = Arg ''b'' None" "args ?a ! 3 = Arg ''c'' None"
    by (simp_all add: method_defaults_fd_def method_defaults_args_def)
  have plen: "length (parameters ?sg) = 3"
    using m by (simp add: signature_parameters collected_length emitted_args_def
        method_defaults_fd_def method_defaults_args_def)
  note t = parameter_default_and_kind[where unparse = name_text and fd = method_defaults_fd
      and unparse' = "\<lambda>_. []", OF refl refl refl refl refl refl]
  from t have q: "\<forall>i < length (args ?a). (if is_method ?sg then 1 else 0) \<le> i \<longrightarrow>
        param_name (parameters ?sg ! (i - (if is_method ?sg then 1 else 0))) = arg (args ?a ! i)
        \<and> (int i \<ge> int (length (args ?a)) - int (length (defaults ?a)) \<longrightarrow>
             default_value (parameters ?sg ! (i - (if is_method ?sg then 1 else 0))) =
               Some (name_text (defaults ?a !
                 nat (int i - (int (length (args ?a)) - int (length (defaults ?a)))))))
        \<and> (default_value (parameters ?sg ! (i - (if is_method ?sg then 1 else 0))) \<noteq> None \<longleftrightarrow>
             int i \<ge> int (length (args ?a)) - int (length (defaults ?a)))
        \<and> (kind (parameters ?sg ! (i - (if is_method ?sg then 1 else 0))) = ''keyword'' \<longleftrightarrow>
             int i \<ge> int (length (args ?a)) - int (length (kw_defaults ?a)))
        \<and> (kind (parameters ?sg ! (i - (if is_method ?sg then 1 else 0))) = ''positional'' \<longleftrightarrow>
             \<not> int i \<ge> int (length (args ?a)) - int (length (kw_defaults ?a)))"
    by blast
  from q[rule_format, of 1] m have p0:
    "param_name (parameters ?sg ! 0) = ''a''" "default_value (parameters ?sg ! 0) = None"
    "kind (parameters ?sg ! 0) = ''positional''"
    by (simp_all add: len ds)
  from q[rule_format, of 2] m have p1:
    "param_name (parameters ?sg ! Suc 0) = ''b''" "default_value (parameters ?sg ! Suc 0) = Some ''x''"
    "kind (parameters ?sg ! Suc 0) = ''positional''"
    by (simp_all add: len ds name_text_def)
  from q[rule_format, of 3] m have p2:
    "param_name (parameters ?sg ! 2) = ''c''" "default_value (parameters ?sg ! 2) = Some ''y''"
    "kind (parameters ?sg ! 2) = ''keyword''"
    by (simp_all add: len ds name_text_def)
  have three: "xs = [xs ! 0, xs ! Suc 0, xs ! 2]" if "length xs = 3" for xs :: "parameter list"
  proof -
    from that obtain x y z where "xs = [x, y, z]"
      by (auto simp: numeral_3_eq_3 length_Suc_conv)
    then show ?thesis by simp
  qed
  have ps: "parameters ?sg = [parameters ?sg ! 0, parameters ?sg ! Suc 0, parameters ?sg ! 2]"
    using plen by (rule three)
  have names: "map param_name (parameters ?sg) = [''a'', ''b'', ''c'']"
    by (subst ps) (simp add: p0 p1 p2)
  have dvs: "map default_value (parameters ?sg) = [None, Some ''x'', Some ''y'']"
    by (subst ps) (simp add: p0 p1 p2)
  have kinds: "map kind (parameters ?sg) = [''positional'', ''positional'', ''keyword'']"
    by (subst ps) (simp add: p0 p1 p2)
  have cnt: "length (filter has_default (parameters ?sg)) = 2"
    by (subst ps) (simp add: p0 p1 p2 has_default_def)
  from t have "map kind (parameters (extract_function_signature (\<lambda>_. []) method_defaults_fd)) =
       map kind (parameters ?sg)"
    by blast
  with kinds have again:
    "map kind (parameters (extract_function_signature (\<lambda>_. []) method_defaults_fd)) =
       [''positional'', ''positional'', ''keyword'']"
    by simp
  from m len names dvs kinds cnt again show ?thesis by simp
qed

section \<open>Signature: method detection\<close>

text \<open>
  Claim C5 as stated: \<^verbatim>\<open>is_method\<close> holds iff the first declared parameter is named
  \<^verbatim>\<open>self\<close> or \<^verbatim>\<open>cls\<close>, and then the output list is one shorter than the number of declared
  parameters.  The extractor never reads \<^verbatim>\<open>args.posonlyargs\<close> or \<^verbatim>\<open>args.kwonlyargs\<close>: for
  \<^verbatim>\<open>def f(self, /, x)\<close> the first declared parameter is \<^verbatim>\<open>self\<close>, yet \<^verbatim>\<open>is_method\<close> is false
  and the output has one entry for two declared parameters.
\<close>

theorem posonly_self_counterexample:
  "arg (hd (declared_parameters (func_args posonly_self_fd))) = ''self''
   \<and> \<not> is_method (extract_function_signature (\<lambda>_. []) posonly_self_fd)
   \<and> length (parameters (extract_function_signature (\<lambda>_. []) posonly_self_fd)) = 1
   \<and> length (declared_parameters (func_args posonly_self_fd)) = 2"
  by (simp add: posonly_self_fd_def declared_parameters_def extract_function_signature_def
        collected_parameters_def regular_parameters_def regular_parameter_def
        variadic_parameters_def)

text \<open>
  Claim C5, amended: \<^verbatim>\<open>is_method\<close> is true iff the first of the parameters the extractor
  reads (the ordinary parameters, then the var-positional, then the var-keyword one) is
  named exactly \<^verbatim>\<open>self\<close> or \<^verbatim>\<open>cls\<close>; when it is true that entry is removed, so the output
  list is exactly one shorter than the list of the parameters read; when it is false no
  parameter is removed.  For a definition without positional-only and keyword-only
  parameters the parameters read are the declared ones, and the claim holds as stated.
\<close>

theorem method_detection:
  "(is_method (extract_function_signature unparse fd) \<longleftrightarrow>
      emitted_args (func_args fd) \<noteq> [] \<and>
      arg (hd (emitted_args (func_args fd))) \<in> {''self'', ''cls''})
   \<and> (is_method (extract_function_signature unparse fd) \<longrightarrow>
        map param_name (parameters (extract_function_signature unparse fd)) =
          map arg (tl (emitted_args (func_args fd)))
        \<and> length (parameters (extract_function_signature unparse fd)) + 1 =
            length (emitted_args (func_args fd)))
   \<and> (\<not> is_method (extract_function_signature unparse fd) \<longrightarrow>
        map param_name (parameters (extract_function_signature unparse fd)) =
          map arg (emitted_args (func_args fd)))
   \<and> (posonlyargs (func_args fd) = [] \<and> kwonlyargs (func_args fd) = [] \<longrightarrow>
        (is_method (extract_function_signature unparse fd) \<longleftrightarrow>
           declared_parameters (func_args fd) \<noteq> [] \<and>
           arg (hd (declared_parameters (func_args fd))) \<in> {''self'', ''cls''})
        \<and> length (parameters (extract_function_signature unparse fd)) =
            (if is_method (extract_function_signature unparse fd)
             then length (declared_parameters (func_args fd)) - 1
             else length (declared_parameters (func_args fd))))"
proof (intro conjI impI)
  let ?s = "extract_function_signature unparse fd"
  let ?a = "func_args fd"
  show m: "is_method ?s \<longleftrightarrow>
      emitted_args ?a \<noteq> [] \<and> arg (hd (emitted_args ?a)) \<in> {''self'', ''cls''}"
    by (rule is_method_iff)
  show "map param_name (parameters ?s) = map arg (tl (emitted_args ?a))" if "is_method ?s"
    using that collected_names[of unparse ?a] by (simp add: signature_parameters map_tl)
  show "length (parameters ?s) + 1 = length (emitted_args ?a)" if "is_method ?s"
    using that m collected_length[of unparse ?a] by (simp add: signature_parameters)
  show "map param_name (parameters ?s) = map arg (emitted_args ?a)" if "\<not> is_method ?s"
    using that collected_names[of unparse ?a] by (simp add: signature_parameters)
  assume e: "posonlyargs ?a = [] \<and> kwonlyargs ?a = []"
  then have d: "declared_parameters ?a = emitted_args ?a"
    by (simp add: declared_parameters_def emitted_args_def)
  show "is_method ?s \<longleftrightarrow>
           declared_parameters ?a \<noteq> [] \<and> arg (hd (declared_parameters ?a)) \<in> {''self'', ''cls''}"
    using m d by simp
  show "length (parameters ?s) =
            (if is_method ?s then length (declared_parameters ?a) - 1
             else length (declared_parameters ?a))"
    using d collected_length[of unparse ?a] by (simp add: signature_parameters)
qed

theorem method_detection_witness:
  "posonlyargs (func_args method_fd) = [] \<and> kwonlyargs (func_args method_fd) = []
   \<and> arg (hd (declared_parameters (func_args method_fd))) = ''self''
   \<and> is_method (extract_function_signature (\<lambda>_. ''1'') method_fd)
   \<and> map param_name (parameters (extract_function_signature (\<lambda>_. ''1'') method_fd)) = [''scale'']
   \<and> length (parameters (extract_function_signature (\<lambda>_. ''1'') method_fd)) = 1
   \<and> length (declared_parameters (func_args method_fd)) = 2"
proof -
  have h: "posonlyargs (func_args method_fd) = [] \<and> kwonlyargs (func_args method_fd) = []"
    by (simp add: method_fd_def)
  have d: "declared_parameters (func_args method_fd) = [Arg ''self'' None, Arg ''scale'' None]"
    "emitted_args (func_args method_fd) = [Arg ''self'' None, Arg ''scale'' None]"
    by (simp_all add: method_fd_def declared_parameters_def emitted_args_def)
  note t = method_detection[of "\<lambda>_. ''1''" method_fd]
  from t h d have m: "is_method (extract_function_signature (\<lambda>_. ''1'') method_fd)"
    by simp
  with t d have
    "map param_name (parameters (extract_function_signature (\<lambda>_. ''1'') method_fd)) = [''scale'']"
    "length (parameters (extract_function_signature (\<lambda>_. ''1'') method_fd)) = 1"
    by simp_all
  with h d m show ?thesis by simp
qed

section \<open>Body analyzer: complexity\<close>

text \<open>
  Claim C6: the complexity reported for a function node is 1, plus the number of \<^verbatim>\<open>If\<close>
  nodes in its subtree, plus the number of handlers of every \<^verbatim>\<open>Try\<close> node, plus the number
  of case arms of every \<^verbatim>\<open>Match\<close> node (a tree can hold \<^verbatim>\<open>Match\<close> nodes only when the
  \<^verbatim>\<open>ast\<close> module has the class).  A function whose analysis has no branch record and whose
  subtree has no handler has complexity 1, and a conditional adds exactly 1 to what its
  test and its two blocks add on their own: replacing the \<^verbatim>\<open>If\<close> node by a neutral node
  with the same children lowers the complexity by 1.
\<close>

theorem complexity_accumulation:
  "(match_node_type \<or> (\<forall>n \<in> set (subtree_nodes (FunctionDef fd)). \<not> is_match n) \<longrightarrow>
      complexity (analyze_function_body unparse match_node_type fd) =
        1 + int (count_if (FunctionDef fd)) + int (total_handlers (FunctionDef fd))
          + int (total_cases (FunctionDef fd)))
   \<and> (branches (analyze_function_body unparse match_node_type fd) = [] \<and>
        total_handlers (FunctionDef fd) = 0 \<longrightarrow>
      complexity (analyze_function_body unparse match_node_type fd) = 1)
   \<and> complexity (analyze_function_body unparse match_node_type (with_stmt fd (If t b e l))) =
       complexity (analyze_function_body unparse match_node_type
                     (with_stmt fd (Other (Some l) (t # b @ e)))) + 1"
proof (intro conjI impI)
  assume "match_node_type \<or> (\<forall>n \<in> set (subtree_nodes (FunctionDef fd)). \<not> is_match n)"
  then show "complexity (analyze_function_body unparse match_node_type fd) =
        1 + int (count_if (FunctionDef fd)) + int (total_handlers (FunctionDef fd))
          + int (total_cases (FunctionDef fd))"
    by (simp add: complexity_walk contribution_sum_split count_if_def total_handlers_def
          total_cases_def)
next
  assume a: "branches (analyze_function_body unparse match_node_type fd) = [] \<and>
        total_handlers (FunctionDef fd) = 0"
  then have "concat (map (branch_records unparse match_node_type) (walk (FunctionDef fd))) = []"
    by (simp add: analyze_function_body_def analyze_fold_branches)
  then have "sum_list (map (node_contribution match_node_type) (walk (FunctionDef fd))) =
               sum_list (map handler_count (walk (FunctionDef fd)))"
    by (rule no_branches_no_contribution)
  then have "sum_list (map (node_contribution match_node_type) (subtree_nodes (FunctionDef fd))) =
               total_handlers (FunctionDef fd)"
    by (simp add: sum_list_walk total_handlers_def)
  with a show "complexity (analyze_function_body unparse match_node_type fd) = 1"
    by (simp add: complexity_walk)
next
  have "sum_list (map (node_contribution match_node_type) (subtree_nodes (If t b e l))) =
        1 + sum_list (map (node_contribution match_node_type)
                          (subtree_nodes (Other (Some l) (t # b @ e))))"
    by (simp add: subtree_sum_root[of _ "If t b e l"]
          subtree_sum_root[of _ "Other (Some l) (t # b @ e)"] node_contribution_def)
  then show "complexity (analyze_function_body unparse match_node_type (with_stmt fd (If t b e l))) =
       complexity (analyze_function_body unparse match_node_type
                     (with_stmt fd (Other (Some l) (t # b @ e)))) + 1"
    by (simp add: complexity_walk subtree_sum_with_stmt node_contribution_def)
qed

theorem complexity_accumulation_witness:
  "complexity (analyze_function_body (\<lambda>_. []) True divide_fd) = 2
   \<and> count_if (FunctionDef divide_fd) = 1
   \<and> branches (analyze_function_body (\<lambda>_. []) True add_fd) = []
   \<and> total_handlers (FunctionDef add_fd) = 0
   \<and> complexity (analyze_function_body (\<lambda>_. []) True add_fd) = 1"
proof -
  from complexity_accumulation[of True divide_fd "\<lambda>_. []"]
  have "complexity (analyze_function_body (\<lambda>_. []) True divide_fd) =
        1 + int (count_if (FunctionDef divide_fd)) + int (total_handlers (FunctionDef divide_fd))
          + int (total_cases (FunctionDef divide_fd))"
    by blast
  then have d: "complexity (analyze_function_body (\<lambda>_. []) True divide_fd) = 2"
    by (simp add: divide_counts)
  from complexity_accumulation[of True add_fd "\<lambda>_. []"] add_counts
  have a: "complexity (analyze_function_body (\<lambda>_. []) True add_fd) = 1"
    by blast
  from d a divide_counts add_counts show ?thesis by simp
qed

section \<open>Import collector: the alias of a from-import\<close>

text \<open>
  Claim C7: the collector yields the records of all the nodes of the tree and no others,
  one for every from-import statement (and one for every name of a plain import).  The
  record of a from-import statement of the tree is among the collected ones; its imported
  names are all the names of the statement; its alias is populated iff the statement
  imports exactly one name and that name has an alias (an alias of the parser is a
  non-empty identifier), and it is then that alias; a from-import of two or more names
  has no alias.
\<close>

theorem from_import_alias_rule:
  "mset (extract_imports tree) = mset (concat (map import_records (subtree_nodes tree)))
   \<and> extract_imports tree = concat (map import_records (walk tree))
   \<and> length (extract_imports tree) =
       length (filter is_import_from (subtree_nodes tree))
       + sum_list (map plain_import_names (subtree_nodes tree))
   \<and> (\<exists>r. import_records (ImportFrom m names l) = [r]
          \<and> (ImportFrom m names l \<in> set (subtree_nodes tree) \<longrightarrow> r \<in> set (extract_imports tree))
          \<and> imported_names r = map alias_name names
          \<and> imp_line r = l
          \<and> ((\<forall>al \<in> set names. asname al \<noteq> Some []) \<longrightarrow>
               (imp_alias r \<noteq> None \<longleftrightarrow> length names = 1 \<and> asname (hd names) \<noteq> None))
          \<and> (imp_alias r \<noteq> None \<longrightarrow> imp_alias r = asname (hd names))
          \<and> (2 \<le> length names \<longrightarrow> imp_alias r = None))"
proof (intro conjI)
  show "mset (extract_imports tree) = mset (concat (map import_records (subtree_nodes tree)))"
    by (rule extract_imports_mset)
  show "extract_imports tree = concat (map import_records (walk tree))"
    by (rule extract_imports_concat)
  show "length (extract_imports tree) =
       length (filter is_import_from (subtree_nodes tree))
       + sum_list (map plain_import_names (subtree_nodes tree))"
    by (rule extract_imports_length)
  obtain r where r: "import_records (ImportFrom m names l) = [r]" by simp
  have cover: "ImportFrom m names l \<in> set (subtree_nodes tree) \<longrightarrow> r \<in> set (extract_imports tree)"
    using subtree_import_records[of "ImportFrom m names l" tree] r by auto
  have rest: "imported_names r = map alias_name names
          \<and> imp_line r = l
          \<and> ((\<forall>al \<in> set names. asname al \<noteq> Some []) \<longrightarrow>
               (imp_alias r \<noteq> None \<longleftrightarrow> length names = 1 \<and> asname (hd names) \<noteq> None))
          \<and> (imp_alias r \<noteq> None \<longrightarrow> imp_alias r = asname (hd names))
          \<and> (2 \<le> length names \<longrightarrow> imp_alias r = None)"
  proof (cases names)
    case Nil
    then show ?thesis using r by auto
  next
    case (Cons al rest)
    then show ?thesis using r by (cases "asname al") (auto simp: hd_conv_nth split: if_splits)
  qed
  from r cover rest
  show "\<exists>r. import_records (ImportFrom m names l) = [r]
          \<and> (ImportFrom m names l \<in> set (subtree_nodes tree) \<longrightarrow> r \<in> set (extract_imports tree))
          \<and> imported_names r = map alias_name names
          \<and> imp_line r = l
          \<and> ((\<forall>al \<in> set names. asname al \<noteq> Some []) \<longrightarrow>
               (imp_alias r \<noteq> None \<longleftrightarrow> length names = 1 \<and> asname (hd names) \<noteq> None))
          \<and> (imp_alias r \<noteq> None \<longrightarrow> imp_alias r = asname (hd names))
          \<and> (2 \<le> length names \<longrightarrow> imp_alias r = None)"
    by blast
qed

theorem from_import_alias_rule_witness:
  "ImportFrom (Some ''os.path'') [Alias ''join'' (Some ''j'')] 2 \<in> set (subtree_nodes imports_module)
   \<and> ImportFrom (Some ''typing'') [Alias ''List'' (Some ''L''), Alias ''Dict'' (Some ''D'')] 4
        \<in> set (subtree_nodes imports_module)
   \<and> asname (Alias ''join'' (Some ''j'')) \<noteq> Some []
   \<and> \<lparr> imp_module = ''os.path'', imported_names = [''join''], imp_alias = Some ''j'', imp_line = 2 \<rparr>
        \<in> set (extract_imports imports_module)
   \<and> \<lparr> imp_module = ''typing'', imported_names = [''List'', ''Dict''], imp_alias = None, imp_line = 4 \<rparr>
        \<in> set (extract_imports imports_module)
   \<and> length (filter is_import_from (subtree_nodes imports_module)) = 2
   \<and> sum_list (map plain_import_names (subtree_nodes imports_module)) = 2
   \<and> length (extract_imports imports_module) = 4
   \<and> extract_imports imports_module =
       [\<lparr> imp_module = ''os'', imported_names = [''*''], imp_alias = None, imp_line = 1 \<rparr>,
        \<lparr> imp_module = ''sys'', imported_names = [''*''], imp_alias = Some ''system'', imp_line = 1 \<rparr>,
        \<lparr> imp_module = ''os.path'', imported_names = [''join''], imp_alias = Some ''j'', imp_line = 2 \<rparr>,
        \<lparr> imp_module = ''typing'', imported_names = [''List'', ''Dict''], imp_alias = None,
           imp_line = 4 \<rparr>]"
proof -
  let ?one = "ImportFrom (Some ''os.path'') [Alias ''join'' (Some ''j'')] 2"
  let ?two = "ImportFrom (Some ''typing'') [Alias ''List'' (Some ''L''), Alias ''Dict'' (Some ''D'')] 4"
  have in1: "?one \<in> set (subtree_nodes imports_module)"
    and in2: "?two \<in> set (subtree_nodes imports_module)"
    by (simp_all add: imports_module_nodes)
  have h: "asname (Alias ''join'' (Some ''j'')) \<noteq> Some []" by simp
  have counts: "length (filter is_import_from (subtree_nodes imports_module)) = 2"
    "sum_list (map plain_import_names (subtree_nodes imports_module)) = 2"
    unfolding imports_module_nodes by (simp_all add: imports_module_def)
  note t1 = from_import_alias_rule[of imports_module "Some ''os.path''" "[Alias ''join'' (Some ''j'')]" 2]
  note t2 = from_import_alias_rule[of imports_module "Some ''typing''"
      "[Alias ''List'' (Some ''L''), Alias ''Dict'' (Some ''D'')]" 4]
  from t1 in1 obtain r1 where r1: "import_records ?one = [r1]" "r1 \<in> set (extract_imports imports_module)"
    by blast
  from t2 in2 obtain r2 where r2: "import_records ?two = [r2]" "r2 \<in> set (extract_imports imports_module)"
    by blast
  from r1 have a: "\<lparr> imp_module = ''os.path'', imported_names = [''join''], imp_alias = Some ''j'',
        imp_line = 2 \<rparr> \<in> set (extract_imports imports_module)"
    by simp
  from r2 have b: "\<lparr> imp_module = ''typing'', imported_names = [''List'', ''Dict''], imp_alias = None,
        imp_line = 4 \<rparr> \<in> set (extract_imports imports_module)"
    by simp
  from t1 have "length (extract_imports imports_module) =
       length (filter is_import_from (subtree_nodes imports_module))
       + sum_list (map plain_import_names (subtree_nodes imports_module))"
    by blast
  with counts have c: "length (extract_imports imports_module) = 4"
    by simp
  have v: "extract_imports imports_module =
       [\<lparr> imp_module = ''os'', imported_names = [''*''], imp_alias = None, imp_line = 1 \<rparr>,
        \<lparr> imp_module = ''sys'', imported_names = [''*''], imp_alias = Some ''system'', imp_line = 1 \<rparr>,
        \<lparr> imp_module = ''os.path'', imported_names = [''join''], imp_alias = Some ''j'', imp_line = 2 \<rparr>,
        \<lparr> imp_module = ''typing'', imported_names = [''List'', ''Dict''], imp_alias = None,
           imp_line = 4 \<rparr>]"
    by (simp add: extract_imports_def walk_def imports_module_def load_fd_def no_args_def)
  from in1 in2 h a b counts c v show ?thesis by blast
qed

section \<open>Assembler: the module path\<close>

text \<open>
  Claim C8: the module path is the file path with the extension removed as a suffix, the
  separators replaced and one leading dot removed, every other character kept.  The
  source calls \<^verbatim>\<open>replace('.py', '')\<close>, which removes \<^verbatim>\<open>.py\<close> wherever it occurs: for a file
  below a directory \<^verbatim>\<open>.pyenv\<close> the characters \<^verbatim>\<open>.py\<close> of the directory name are lost.
\<close>

theorem module_path_removes_inner_py:
  "derive_module_path ''/home/u/.pyenv/lib/mod.py'' = ''home.u.env.lib.mod''
   \<and> spec_module_path ''/home/u/.pyenv/lib/mod.py'' = ''home.u..pyenv.lib.mod''"
  by (simp add: derive_module_path_def spec_module_path_def suffix_def)

section \<open>Signature: keyword-only parameters\<close>



end
